theory Spec2Isabelle
  imports Main "HOL-Library.Sublist"
begin

section \<open>git-simple-merge: the conflict parser and the resolution loop\<close>

text \<open>
  A shallow embedding of \<^verbatim>\<open>git-simple-merge.py\<close>. Python's unbounded integers are
  \<open>int\<close>, a line of text is a \<open>string\<close>, \<^verbatim>\<open>None\<close> is \<open>None\<close>, an exception is a
  value of \<open>exn\<close> on the left of a sum, and everything the program mutates (the
  resolver object, the files, the index, the terminal) is passed explicitly.
\<close>

subsection \<open>Data model\<close>

datatype ViewMode = HUNK | FILE

definition ViewMode_value :: "ViewMode \<Rightarrow> string" where
  "ViewMode_value m = (case m of HUNK \<Rightarrow> ''hunk'' | FILE \<Rightarrow> ''file'')"

record ConflictHunk =
  header :: string
  ours :: "string list"
  theirs :: "string list"
  context_before :: "string list"
  context_after :: "string list"
  start_line :: "int option"

text \<open>The exceptions that can leave a function of the program.\<close>

datatype exn =
    SystemExit int
  | AttributeError string
  | TypeError
  | EOFError
  | OSError
  | SubprocessError

subsection \<open>Python primitives used by the program\<close>

text \<open>
  \<^verbatim>\<open>xs[lo:hi]\<close>: a negative bound counts from the end, and both bounds are clamped
  to the list.
\<close>

definition slice_bound :: "int \<Rightarrow> int \<Rightarrow> nat" where
  "slice_bound n i = nat (min n (max 0 (if i < 0 then i + n else i)))"

definition slice :: "'a list \<Rightarrow> int \<Rightarrow> int \<Rightarrow> 'a list" where
  "slice xs lo hi =
     (let n = int (length xs); a = slice_bound n lo; b = slice_bound n hi
      in take (b - a) (drop a xs))"

text \<open>\<^verbatim>\<open>line.startswith(tok)\<close>.\<close>

definition startswith :: "string \<Rightarrow> string \<Rightarrow> bool" where
  "startswith line tok = prefix tok line"

text \<open>
  \<^verbatim>\<open>str.isspace\<close> on one character, for the code points below 256, and
  \<^verbatim>\<open>rstrip()\<close>, \<^verbatim>\<open>strip()\<close>, \<^verbatim>\<open>lower()\<close> on them.
\<close>

definition isspace :: "char \<Rightarrow> bool" where
  "isspace c = ((of_char c :: nat) \<in> {9, 10, 11, 12, 13, 28, 29, 30, 31, 32, 133, 160})"

definition rstrip :: "string \<Rightarrow> string" where
  "rstrip s = rev (dropWhile isspace (rev s))"

definition strip :: "string \<Rightarrow> string" where
  "strip s = rstrip (dropWhile isspace s)"

definition lower_char :: "char \<Rightarrow> char" where
  "lower_char c =
     (let n = (of_char c :: nat)
      in if (65 \<le> n \<and> n \<le> 90) \<or> (192 \<le> n \<and> n \<le> 222 \<and> n \<noteq> 215)
         then char_of (n + 32) else c)"

definition lower :: "string \<Rightarrow> string" where
  "lower s = map lower_char s"

text \<open>\<^verbatim>\<open>enumerate(xs, k)\<close> with Python integers as indices.\<close>

fun enumerate_from :: "int \<Rightarrow> 'a list \<Rightarrow> (int \<times> 'a) list" where
  "enumerate_from k [] = []"
| "enumerate_from k (x # xs) = (k, x) # enumerate_from (k + 1) xs"

subsection \<open>The resolver object\<close>

text \<open>
  The fields of \<^verbatim>\<open>GitConflictResolver\<close> set by \<^verbatim>\<open>__init__\<close>. The repository
  handle \<^verbatim>\<open>self.repo\<close> is the index kept in the world below.
\<close>

record GitConflictResolver =
  editor :: string
  view_mode :: ViewMode
  context_lines :: int

subsection \<open>Context windowing\<close>

text \<open>\<^verbatim>\<open>extract_context(self, content, start, end)\<close>, lines 63 to 67.\<close>

definition extract_context ::
  "GitConflictResolver \<Rightarrow> string list \<Rightarrow> int \<Rightarrow> int \<Rightarrow> string list \<times> string list" where
  "extract_context self content start end =
     (let before = slice content (max 0 (start - context_lines self)) start;
          after = slice content end (min (int (length content)) (end + context_lines self))
      in (before, after))"

subsection \<open>The marker parser\<close>

text \<open>
  The local variables of the scan in \<^verbatim>\<open>get_conflicts\<close>: \<^verbatim>\<open>hunks\<close>,
  \<^verbatim>\<open>current_hunk\<close>, \<^verbatim>\<open>state\<close> (\<^verbatim>\<open>None\<close>, \<^verbatim>\<open>'ours'\<close> or \<^verbatim>\<open>'theirs'\<close>) and
  \<^verbatim>\<open>hunk_start\<close>.
\<close>

record scan =
  hunks :: "ConflictHunk list"
  current_hunk :: "ConflictHunk option"
  state :: "string option"
  hunk_start :: "int option"

definition scan_init :: scan where
  "scan_init = \<lparr>hunks = [], current_hunk = None, state = None, hunk_start = None\<rparr>"

text \<open>
  Attaching the context to a hunk and appending it to \<^verbatim>\<open>hunks\<close> (lines 81 to 84
  and 97 to 100). \<^verbatim>\<open>hunk_start\<close> is an operand of a subtraction in
  \<^verbatim>\<open>extract_context\<close>: \<^verbatim>\<open>None\<close> there is a TypeError.
\<close>

definition finalize ::
  "GitConflictResolver \<Rightarrow> string list \<Rightarrow> ConflictHunk \<Rightarrow> int \<Rightarrow> scan \<Rightarrow> exn + scan" where
  "finalize self content h end sc =
     (case hunk_start sc of
        None \<Rightarrow> Inl TypeError
      | Some s \<Rightarrow>
          (let (before, after) = extract_context self content s end
           in Inr (sc\<lparr>hunks := hunks sc @
                       [h\<lparr>context_before := before, context_after := after\<rparr>]\<rparr>)))"

text \<open>The body of the \<^verbatim>\<open>for i, line in enumerate(content)\<close> loop, lines 78 to 107.\<close>

definition scan_line ::
  "GitConflictResolver \<Rightarrow> string list \<Rightarrow> int \<times> string \<Rightarrow> scan \<Rightarrow> exn + scan" where
  "scan_line self content il sc =
     (let i = fst il; line = snd il in
      if startswith line ''<<<<<<<'' then
        (case (case current_hunk sc of
                 Some h \<Rightarrow> finalize self content h i sc
               | None \<Rightarrow> Inr sc) of
           Inl e \<Rightarrow> Inl e
         | Inr sc1 \<Rightarrow>
             Inr (sc1\<lparr>hunk_start := Some i,
                      current_hunk := Some \<lparr>header = line, ours = [], theirs = [],
                        context_before = [], context_after = [], start_line = Some i\<rparr>,
                      state := Some ''ours''\<rparr>))
      else if startswith line ''======='' \<and> state sc = Some ''ours'' then
        Inr (sc\<lparr>state := Some ''theirs''\<rparr>)
      else if startswith line ''>>>>>>>'' \<and> state sc = Some ''theirs'' then
        (case (case current_hunk sc of
                 Some h \<Rightarrow> finalize self content (h\<lparr>theirs := theirs h @ [line]\<rparr>) (i + 1) sc
               | None \<Rightarrow> Inr sc) of
           Inl e \<Rightarrow> Inl e
         | Inr sc1 \<Rightarrow> Inr (sc1\<lparr>current_hunk := None, state := None\<rparr>))
      else if current_hunk sc \<noteq> None \<and> state sc \<noteq> None \<and> state sc \<noteq> Some [] then
        (case current_hunk sc of
           None \<Rightarrow> Inr sc
         | Some h \<Rightarrow>
             if state sc = Some ''ours''
             then Inr (sc\<lparr>current_hunk := Some (h\<lparr>ours := ours h @ [line]\<rparr>)\<rparr>)
             else Inr (sc\<lparr>current_hunk := Some (h\<lparr>theirs := theirs h @ [line]\<rparr>)\<rparr>))
      else Inr sc)"

text \<open>The loop: it stops at the first exception.\<close>

fun scan_lines ::
  "GitConflictResolver \<Rightarrow> string list \<Rightarrow> (int \<times> string) list \<Rightarrow> scan \<Rightarrow> exn + scan" where
  "scan_lines self content [] sc = Inr sc"
| "scan_lines self content (il # ils) sc =
     (case scan_line self content il sc of
        Inl e \<Rightarrow> Inl e
      | Inr sc' \<Rightarrow> scan_lines self content ils sc')"

text \<open>
  \<^verbatim>\<open>get_conflicts\<close> on the lines that \<^verbatim>\<open>get_file_content\<close> returned: the scan
  from the initial variables, then \<^verbatim>\<open>return hunks\<close>.
\<close>

definition parse_content :: "GitConflictResolver \<Rightarrow> string list \<Rightarrow> exn + ConflictHunk list" where
  "parse_content self content =
     (case scan_lines self content (enumerate_from 0 content) scan_init of
        Inl e \<Rightarrow> Inl e
      | Inr sc \<Rightarrow> Inr (hunks sc))"

subsection \<open>The terminal, the files and the collaborators\<close>

text \<open>
  What \<^verbatim>\<open>print\<close> writes: text, and the colour constants of colorama, which are
  kept symbolic. \<open>ExcText\<close> stands for the text of a caught exception.
\<close>

datatype colour = RED | GREEN | BLUE | YELLOW | CYAN | MAGENTA

datatype piece = Text string | Fore colour | Style_RESET_ALL | ExcText

text \<open>
  The world outside the resolver object: the working files as \<^verbatim>\<open>readlines\<close>
  returns them (no entry: the file cannot be read), the paths staged in the index, the
  lines still to be read from the terminal, and the calls of \<^verbatim>\<open>print\<close> and
  \<^verbatim>\<open>input\<close> so far, one list of pieces for each call.
\<close>

record world =
  files :: "string \<rightharpoonup> string list"
  index :: "string list"
  stdin :: "string list"
  stdout :: "piece list list"

text \<open>How a subprocess ends: it ran (and left the files so), or the launch raised.\<close>

datatype proc_outcome =
    Completed "string \<rightharpoonup> string list"
  | ProcSubprocessError
  | ProcOSError

text \<open>
  The collaborators the source calls but does not define: the environment variables, the
  repository, and \<^verbatim>\<open>subprocess.run\<close>. \<open>unmerged_blobs\<close> is what
  \<^verbatim>\<open>repo.index.unmerged_blobs()\<close> gives: \<open>None\<close> when it raises GitCommandError,
  otherwise the dictionary, in its order, from each conflicted path to the list of
  its (stage, blob path) pairs. \<open>set_order\<close> is the order in which
  \<^verbatim>\<open>list(set(...))\<close> lists the elements of a set that is not empty, and
  \<open>index_add_ok\<close> says that staging does not raise.
\<close>

record ext =
  environ :: "string \<rightharpoonup> string"
  repo_init_ok :: bool
  unmerged_blobs :: "(string \<times> (int \<times> string) list) list option"
  set_order :: "string list \<Rightarrow> string list"
  index_add_ok :: "string \<Rightarrow> bool"
  run_subprocess :: "string list \<Rightarrow> (string \<rightharpoonup> string list) \<Rightarrow> proc_outcome"

definition nl :: string where
  "nl = [CHR 0x0A]"

definition print :: "piece list \<Rightarrow> world \<Rightarrow> world" where
  "print ps w = w\<lparr>stdout := stdout w @ [ps @ [Text nl]]\<rparr>"

text \<open>\<^verbatim>\<open>print(..., end='')\<close>.\<close>

definition print_noend :: "piece list \<Rightarrow> world \<Rightarrow> world" where
  "print_noend ps w = w\<lparr>stdout := stdout w @ [ps]\<rparr>"

text \<open>\<^verbatim>\<open>str(n)\<close> and the format \<^verbatim>\<open>{i:4d}\<close>.\<close>

fun digits :: "nat \<Rightarrow> string" where
  "digits n = (if n < 10 then [char_of (48 + n)]
               else digits (n div 10) @ [char_of (48 + n mod 10)])"

definition str_int :: "int \<Rightarrow> string" where
  "str_int i = (if i < 0 then CHR ''-'' # digits (nat (- i)) else digits (nat i))"

definition fmt4d :: "int \<Rightarrow> string" where
  "fmt4d i = (let s = str_int i in replicate (4 - length s) CHR '' '' @ s)"

text \<open>The box-drawing bar of the file view and the apostrophe, as bytes.\<close>

definition vbar :: string where
  "vbar = [CHR 0xE2, CHR 0x94, CHR 0x82]"

definition apos :: string where
  "apos = [CHR 0x27]"

subsection \<open>The methods of the resolver\<close>

text \<open>\<^verbatim>\<open>__init__\<close>, lines 35 to 43.\<close>

definition init :: "ext \<Rightarrow> world \<Rightarrow> (exn + GitConflictResolver) \<times> world" where
  "init x w =
     (let self = \<lparr>editor = (case environ x ''EDITOR'' of Some e \<Rightarrow> e | None \<Rightarrow> ''nano''),
                  view_mode = FILE, context_lines = 3\<rparr>
      in if repo_init_ok x then (Inr self, w)
         else (Inl (SystemExit 1),
               print [Fore RED, Text ''Error initializing Git repository: '', ExcText] w))"

text \<open>
  \<^verbatim>\<open>get_conflicted_files\<close>, lines 45 to 52. In the comprehension of line 48,
  \<^verbatim>\<open>item\<close> is a value of the dictionary, that is a list of pairs, and a list has
  no attribute \<^verbatim>\<open>a_path\<close>: the lookup raises AttributeError, which
  \<^verbatim>\<open>except GitCommandError\<close> does not catch. The comprehension stops at the first
  exception.
\<close>

definition a_path :: "(int \<times> string) list \<Rightarrow> exn + string" where
  "a_path item = Inl (AttributeError ''a_path'')"

fun a_paths :: "(int \<times> string) list list \<Rightarrow> exn + string list" where
  "a_paths [] = Inr []"
| "a_paths (item # items) =
     (case a_path item of
        Inl e \<Rightarrow> Inl e
      | Inr p \<Rightarrow> (case a_paths items of Inl e \<Rightarrow> Inl e | Inr ps \<Rightarrow> Inr (p # ps)))"

text \<open>\<^verbatim>\<open>list(set(xs))\<close>: empty for the empty list.\<close>

definition list_set :: "ext \<Rightarrow> string list \<Rightarrow> string list" where
  "list_set x xs = (if xs = [] then [] else set_order x xs)"

definition get_conflicted_files :: "ext \<Rightarrow> world \<Rightarrow> (exn + string list) \<times> world" where
  "get_conflicted_files x w =
     (case unmerged_blobs x of
        Some blobs \<Rightarrow>
          (case a_paths (map snd blobs) of
             Inl e \<Rightarrow> (Inl e, w)
           | Inr conflicted \<Rightarrow> (Inr (list_set x conflicted), w))
      | None \<Rightarrow>
          (Inr [], print [Fore RED, Text ''Error getting conflicted files: '', ExcText] w))"

text \<open>\<^verbatim>\<open>get_file_content\<close>, lines 54 to 61.\<close>

definition get_file_content :: "string \<Rightarrow> world \<Rightarrow> string list \<times> world" where
  "get_file_content file_path w =
     (case files w file_path of
        Some ls \<Rightarrow> (ls, w)
      | None \<Rightarrow> ([], print [Fore RED, Text (''Error reading file '' @ file_path @ '': ''),
                              ExcText] w))"

text \<open>\<^verbatim>\<open>get_conflicts\<close>, lines 69 to 109.\<close>

definition get_conflicts ::
  "GitConflictResolver \<Rightarrow> string \<Rightarrow> world \<Rightarrow> (exn + ConflictHunk list) \<times> world" where
  "get_conflicts self file_path w =
     (let (content, w1) = get_file_content file_path w
      in (parse_content self content, w1))"

text \<open>\<^verbatim>\<open>launch_vimdiff\<close>, lines 111 to 121. An OSError is not caught there.\<close>

definition launch_vimdiff :: "ext \<Rightarrow> string \<Rightarrow> world \<Rightarrow> (exn + bool) \<times> world" where
  "launch_vimdiff x file_path w =
     (case run_subprocess x [''vimdiff'', file_path @ ''.LOCAL'', file_path @ ''.BASE'',
                             file_path @ ''.REMOTE''] (files w) of
        Completed fs \<Rightarrow> (Inr True, w\<lparr>files := fs\<rparr>)
      | ProcSubprocessError \<Rightarrow>
          (Inr False, print [Fore RED, Text ''Error launching vimdiff: '', ExcText] w)
      | ProcOSError \<Rightarrow> (Inl OSError, w))"

text \<open>\<^verbatim>\<open>display_file_view\<close>, lines 123 to 144: the body of its loop, then the method.\<close>

definition file_view_line :: "bool \<times> world \<Rightarrow> int \<times> string \<Rightarrow> bool \<times> world" where
  "file_view_line bw il =
     (let in_conflict = fst bw; w = snd bw; i = fst il; line = snd il;
          tagged = (\<lambda>c. print_noend [c, Text (fmt4d i @ vbar @ '' '' @ line)] w)
      in if startswith line ''<<<<<<<'' then (True, tagged (Fore RED))
         else if startswith line ''======='' \<and> in_conflict then (in_conflict, tagged (Fore YELLOW))
         else if startswith line ''>>>>>>>'' \<and> in_conflict then (False, tagged (Fore GREEN))
         else if in_conflict
           then (in_conflict, tagged (if in_conflict then Fore RED else Fore GREEN))
         else (in_conflict, tagged Style_RESET_ALL))"

definition display_file_view :: "string \<Rightarrow> ConflictHunk list \<Rightarrow> world \<Rightarrow> world" where
  "display_file_view file_path hs w =
     (let (content, w1) = get_file_content file_path w;
          w2 = print [Text nl, Fore BLUE, Text (''File: '' @ file_path)] w1;
          w3 = print [Fore BLUE, Text (replicate 80 CHR ''='')] w2
      in snd (foldl file_view_line (False, w3) (enumerate_from 1 content)))"

text \<open>\<^verbatim>\<open>display_hunk\<close>, lines 146 to 167.\<close>

definition print_lines :: "piece \<Rightarrow> string list \<Rightarrow> world \<Rightarrow> world" where
  "print_lines c ls w = foldl (\<lambda>w' line. print [c, Text (rstrip line)] w') w ls"

definition display_hunk :: "ConflictHunk \<Rightarrow> int \<Rightarrow> world \<Rightarrow> world" where
  "display_hunk hunk hunk_index w =
     (let w1 = print [Text nl, Fore BLUE,
                      Text (''Conflict '' @ str_int (hunk_index + 1) @ '':'')] w;
          w2 = print [Fore BLUE, Text (replicate 80 CHR ''='')] w1;
          w3 = print_lines Style_RESET_ALL (context_before hunk) w2;
          w4 = print [Fore RED, Text (header hunk)] w3;
          w5 = print [Fore RED, Text ''<<<<<<< ours''] w4;
          w6 = print_lines (Fore RED) (ours hunk) w5;
          w7 = print [Fore YELLOW, Text ''=======''] w6;
          w8 = print_lines (Fore GREEN) (theirs hunk) w7;
          w9 = print [Fore GREEN, Text ''>>>>>>> theirs''] w8
      in print_lines Style_RESET_ALL (context_after hunk) w9)"

text \<open>\<^verbatim>\<open>prompt_user\<close>, lines 169 to 190: the options, then the loop around \<^verbatim>\<open>input\<close>.\<close>

definition options :: "GitConflictResolver \<Rightarrow> (string \<times> string) list" where
  "options self =
     [(''o'', ''Keep '' @ apos @ ''ours'' @ apos),
      (''t'', ''Keep '' @ apos @ ''theirs'' @ apos),
      (''e'', ''Edit manually''),
      (''v'', ''Open in vimdiff''),
      (''m'', ''Toggle view mode (current: '' @ ViewMode_value (view_mode self) @ '')''),
      (''c'', ''Show more context''),
      (''s'', ''Skip this hunk''),
      (''q'', ''Quit'')]"

definition input_prompt :: "piece list" where
  "input_prompt = [Text ''Choose an option [o/t/e/v/m/c/s/q]: '']"

text \<open>
  \<^verbatim>\<open>input\<close> writes the prompt and reads one line; at the end of the input it raises
  EOFError.
\<close>

fun read_choice ::
  "string list \<Rightarrow> string list \<Rightarrow> piece list list
     \<Rightarrow> (exn + string) \<times> string list \<times> piece list list" where
  "read_choice keys [] out = (Inl EOFError, [], out @ [input_prompt])"
| "read_choice keys (l # ls) out =
     (let choice = lower (strip l)
      in if choice \<in> set keys then (Inr choice, ls, out @ [input_prompt])
         else read_choice keys ls
                (out @ [input_prompt,
                        [Fore RED, Text ''Invalid option. Please try again.'', Text nl]]))"

definition print_option :: "world \<Rightarrow> string \<times> string \<Rightarrow> world" where
  "print_option w kv =
     print [Fore CYAN, Text (fst kv), Style_RESET_ALL, Text ('') '' @ snd kv)] w"

definition prompt_user :: "GitConflictResolver \<Rightarrow> world \<Rightarrow> (exn + string) \<times> world" where
  "prompt_user self w =
     (let w1 = print [Text (nl @ ''Options:'')] w;
          w2 = foldl print_option w1 (options self);
          (r, rest, out) = read_choice (map fst (options self)) (stdin w2) (stdout w2)
      in (r, w2\<lparr>stdin := rest, stdout := out\<rparr>))"

subsection \<open>The resolution loop\<close>

text \<open>How one pass through the body of \<^verbatim>\<open>while True\<close> ends.\<close>

datatype 's ctl = Continue 's | Break 's | Raised exn 's

text \<open>
  The body of the loop of \<^verbatim>\<open>process_file\<close>, lines 201 to 231: the rendering,
  the prompt, and the chain of \<^verbatim>\<open>if choice == ...\<close>. The last branch
  (the choices \<^verbatim>\<open>o\<close>, \<^verbatim>\<open>t\<close> and \<^verbatim>\<open>s\<close>) evaluates \<^verbatim>\<open>self.resolve_hunk\<close>: the
  class defines no attribute of that name, so the lookup raises AttributeError before
  the call and before the \<^verbatim>\<open>break\<close>.
\<close>

definition render ::
  "GitConflictResolver \<Rightarrow> string \<Rightarrow> ConflictHunk list \<Rightarrow> world \<Rightarrow> world" where
  "render self file_path hs w =
     (if view_mode self = FILE then display_file_view file_path hs w
      else foldl (\<lambda>w' ih. display_hunk (snd ih) (fst ih) w') w (enumerate_from 0 hs))"

definition dispatch ::
  "ext \<Rightarrow> string \<Rightarrow> ConflictHunk list \<Rightarrow> GitConflictResolver \<Rightarrow> string \<Rightarrow> world
     \<Rightarrow> (GitConflictResolver \<times> world) ctl" where
  "dispatch x file_path hs self choice w2 =
     (if choice = ''q'' then
        Raised (SystemExit 0) (self, print [Fore MAGENTA, Text ''Quitting script.''] w2)
      else if choice = ''m'' then
        (let self' = self\<lparr>view_mode := (if view_mode self = FILE then HUNK else FILE)\<rparr>
         in Continue (self', print [Fore CYAN, Text (''Switched to '' @
                          ViewMode_value (view_mode self') @ '' view.'')] w2))
      else if choice = ''c'' then
        (let self' = self\<lparr>context_lines := min (context_lines self + 3) 10\<rparr>
         in Continue (self', print [Fore CYAN, Text (''Showing '' @
                          str_int (context_lines self') @ '' lines of context.'')] w2))
      else if choice = ''v'' then
        (case launch_vimdiff x file_path w2 of
           (Inl e, w3) \<Rightarrow> Raised e (self, w3)
         | (Inr ok, w3) \<Rightarrow> Continue (self, w3))
      else if choice = ''e'' then
        (case run_subprocess x [editor self, file_path] (files w2) of
           ProcOSError \<Rightarrow> Raised OSError (self, w2)
         | ProcSubprocessError \<Rightarrow> Raised SubprocessError (self, w2)
         | Completed fs \<Rightarrow>
             (let w3 = w2\<lparr>files := fs\<rparr>
              in if index_add_ok x file_path then
                   Break (self, print [Fore CYAN, Text ''Manually edited and staged the file.'']
                                  (w3\<lparr>index := index w3 @ [file_path]\<rparr>))
                 else Continue (self, print [Fore RED, Text ''Error staging file: '',
                                             ExcText] w3)))
      else Raised (AttributeError ''resolve_hunk'') (self, w2))"

definition iteration ::
  "ext \<Rightarrow> string \<Rightarrow> ConflictHunk list \<Rightarrow> GitConflictResolver \<times> world
     \<Rightarrow> (GitConflictResolver \<times> world) ctl" where
  "iteration x file_path hs sw =
     (let self = fst sw;
          (r, w2) = prompt_user self (render self file_path hs (snd sw))
      in case r of
           Inl e \<Rightarrow> Raised e (self, w2)
         | Inr choice \<Rightarrow> dispatch x file_path hs self choice w2)"

text \<open>The resolver and the world that a pass through the loop leaves.\<close>

definition ctl_state :: "'s ctl \<Rightarrow> 's" where
  "ctl_state c = (case c of Continue s \<Rightarrow> s | Break s \<Rightarrow> s | Raised e s \<Rightarrow> s)"

text \<open>
  The loop itself. Every pass that continues has read at least one line of the
  terminal, so the loop ends on every finite input: at the latest with the EOFError
  of \<^verbatim>\<open>input\<close>.
\<close>

function process_loop ::
  "ext \<Rightarrow> string \<Rightarrow> ConflictHunk list \<Rightarrow> GitConflictResolver \<times> world
     \<Rightarrow> (exn + unit) \<times> GitConflictResolver \<times> world" where
  "process_loop x file_path hs sw =
     (case iteration x file_path hs sw of
        Continue sw' \<Rightarrow> process_loop x file_path hs sw'
      | Break sw' \<Rightarrow> (Inr (), sw')
      | Raised e sw' \<Rightarrow> (Inl e, sw'))"
  by pat_completeness auto
termination
proof (relation "measure (\<lambda>(x, file_path, hs, sw). length (stdin (snd sw)))")
  show "wf (measure (\<lambda>(x, file_path, hs, sw). length (stdin (snd sw))))"
    by simp
next
  fix x :: ext and file_path :: string and hs :: "ConflictHunk list"
    and sw sw' :: "GitConflictResolver \<times> world"
  assume it: "iteration x file_path hs sw = Continue sw'"
  have print_stdin: "\<And>ps w. stdin (print ps w) = stdin w"
    by (simp add: print_def)
  have lines_stdin: "\<And>c ls w. stdin (print_lines c ls w) = stdin w"
  proof -
    fix c ls w
    have "\<And>w0. stdin (foldl (\<lambda>w' line. print [c, Text (rstrip line)] w') w0 ls) = stdin w0"
      by (induction ls) (simp_all add: print_stdin)
    then show "stdin (print_lines c ls w) = stdin w"
      by (simp add: print_lines_def)
  qed
  have hunk_stdin: "\<And>h i w. stdin (display_hunk h i w) = stdin w"
    by (simp add: display_hunk_def Let_def print_stdin lines_stdin)
  have content_stdin: "\<And>p w. stdin (snd (get_file_content p w)) = stdin w"
    by (simp add: get_file_content_def print_stdin split: option.splits)
  have view_stdin: "\<And>p w. stdin (display_file_view p hs w) = stdin w"
  proof -
    fix p w
    have fold: "\<And>bw. stdin (snd (foldl file_view_line bw ils)) = stdin (snd bw)" for ils
      by (induction ils) (simp_all add: file_view_line_def Let_def print_noend_def)
    show "stdin (display_file_view p hs w) = stdin w"
      using content_stdin [of p w]
      by (cases "get_file_content p w")
         (simp add: display_file_view_def Let_def fold print_stdin)
  qed
  have render_stdin: "\<And>self w. stdin (render self file_path hs w) = stdin w"
  proof -
    fix self w
    have "\<And>w0. stdin (foldl (\<lambda>w' ih. display_hunk (snd ih) (fst ih) w') w0 ihs) = stdin w0"
      for ihs :: "(int \<times> ConflictHunk) list"
      by (induction ihs) (simp_all add: hunk_stdin)
    then show "stdin (render self file_path hs w) = stdin w"
      by (simp add: render_def view_stdin)
  qed
  have read_less: "read_choice keys ls out = (Inr c, rest, out')
      \<Longrightarrow> length rest < length ls" for keys ls out c rest out'
  proof (induction ls arbitrary: out)
    case Nil
    then show ?case by simp
  next
    case (Cons l ls)
    show ?case
    proof (cases "lower (strip l) \<in> set keys")
      case True
      with Cons.prems show ?thesis by (simp add: Let_def)
    next
      case False
      with Cons.prems have "length rest < length ls"
        using Cons.IH by (simp add: Let_def)
      then show ?thesis by simp
    qed
  qed
  have opts_stdin: "stdin (foldl print_option w0 kvs) = stdin w0" for kvs w0
    by (induction kvs arbitrary: w0) (simp_all add: print_option_def print_stdin)
  have prompt_less: "length (stdin w') < length (stdin w)"
    if p: "prompt_user self w = (Inr c, w')" for self w c w'
  proof -
    define w2 where
      "w2 = foldl print_option (print [Text (nl @ ''Options:'')] w) (options self)"
    have s2: "stdin w2 = stdin w"
      by (simp add: w2_def opts_stdin print_stdin)
    obtain r rest out where
      rc: "read_choice (map fst (options self)) (stdin w2) (stdout w2) = (r, rest, out)"
      by (cases "read_choice (map fst (options self)) (stdin w2) (stdout w2)")
    from p have "(r, w2\<lparr>stdin := rest, stdout := out\<rparr>) = (Inr c, w')"
      unfolding prompt_user_def Let_def w2_def [symmetric] rc by simp
    then have "r = Inr c" and "stdin w' = rest"
      by auto
    with rc read_less s2 show ?thesis by metis
  qed
  obtain r w2 where pu: "prompt_user (fst sw) (render (fst sw) file_path hs (snd sw)) = (r, w2)"
    by (cases "prompt_user (fst sw) (render (fst sw) file_path hs (snd sw))")
  from it have it2: "(case r of Inl e \<Rightarrow> Raised e (fst sw, w2)
      | Inr choice \<Rightarrow> dispatch x file_path hs (fst sw) choice w2) = Continue sw'"
    unfolding iteration_def Let_def pu by simp
  then obtain c where r: "r = Inr c" and d: "dispatch x file_path hs (fst sw) c w2 = Continue sw'"
    by (cases r) simp_all
  from pu r have less: "length (stdin w2) < length (stdin (snd sw))"
    using prompt_less [of "fst sw" "render (fst sw) file_path hs (snd sw)" c w2] render_stdin
    by simp
  have vim_stdin: "stdin (snd (launch_vimdiff x file_path w2)) = stdin w2"
    by (simp add: launch_vimdiff_def print_stdin split: proc_outcome.splits)
  have "stdin (snd sw') = stdin w2"
  proof (cases "launch_vimdiff x file_path w2")
    case (Pair a b)
    with vim_stdin have "stdin b = stdin w2" by simp
    with d Pair show ?thesis
      unfolding dispatch_def Let_def
      by (auto simp: print_stdin split: if_splits sum.splits proc_outcome.splits)
  qed
  with less show "((x, file_path, hs, sw'), (x, file_path, hs, sw))
          \<in> measure (\<lambda>(x, file_path, hs, sw). length (stdin (snd sw)))"
    by simp
qed

text \<open>\<^verbatim>\<open>process_file\<close>, lines 192 to 231.\<close>

definition process_file ::
  "ext \<Rightarrow> string \<Rightarrow> GitConflictResolver \<times> world
     \<Rightarrow> (exn + unit) \<times> GitConflictResolver \<times> world" where
  "process_file x file_path sw =
     (let self = fst sw;
          (r, w1) = get_conflicts self file_path (snd sw)
      in case r of
           Inl e \<Rightarrow> (Inl e, self, w1)
         | Inr hs \<Rightarrow>
             if hs = [] then
               (Inr (), self, print [Fore YELLOW, Text ''No conflict hunks found in this file.''] w1)
             else process_loop x file_path hs (self, w1))"

subsection \<open>The file driver\<close>

text \<open>
  The loop \<^verbatim>\<open>for file_path in conflicted_files\<close> of \<^verbatim>\<open>main\<close>: an exception
  leaves it, and the files after it are not processed.
\<close>

fun process_files ::
  "ext \<Rightarrow> string list \<Rightarrow> GitConflictResolver \<times> world
     \<Rightarrow> (exn + unit) \<times> GitConflictResolver \<times> world" where
  "process_files x [] sw = (Inr (), sw)"
| "process_files x (file_path # rest) sw =
     (case process_file x file_path sw of
        (Inl e, sw') \<Rightarrow> (Inl e, sw')
      | (Inr u, sw') \<Rightarrow> process_files x rest sw')"

text \<open>
  The part of \<^verbatim>\<open>main\<close> under \<^verbatim>\<open># Regular operation\<close>: first lines 250 to 257,
  which work on the list \<^verbatim>\<open>conflicted_files\<close>, then lines 247 to 257 as a whole.
\<close>

definition regular_files ::
  "ext \<Rightarrow> GitConflictResolver \<Rightarrow> string list \<Rightarrow> world \<Rightarrow> (exn + unit) \<times> world" where
  "regular_files x resolver conflicted_files w2 =
     (if conflicted_files = [] then
        (Inl (SystemExit 0),
         print [Fore GREEN, Text ''No conflicted files found. Exiting.''] w2)
      else
        (case process_files x conflicted_files (resolver, w2) of
           (Inl e, sw) \<Rightarrow> (Inl e, snd sw)
         | (Inr u, sw) \<Rightarrow>
             (Inr (), print [Fore GREEN, Text (nl @ ''All conflicts processed.'')]
                        (snd sw))))"

definition regular :: "ext \<Rightarrow> world \<Rightarrow> (exn + unit) \<times> world" where
  "regular x w =
     (case init x w of
        (Inl e, w1) \<Rightarrow> (Inl e, w1)
      | (Inr resolver, w1) \<Rightarrow>
          (case get_conflicted_files x w1 of
             (Inl e, w2) \<Rightarrow> (Inl e, w2)
           | (Inr conflicted_files, w2) \<Rightarrow> regular_files x resolver conflicted_files w2))"

text \<open>
  The truth value of an environment variable read with \<^verbatim>\<open>os.environ.get\<close>: unset
  (\<^verbatim>\<open>None\<close>) and the empty string are false.
\<close>

definition truthy :: "string option \<Rightarrow> bool" where
  "truthy v = (case v of None \<Rightarrow> False | Some s \<Rightarrow> s \<noteq> [])"

text \<open>
  \<^verbatim>\<open>main\<close>, lines 233 to 257, on the argument vector \<^verbatim>\<open>sys.argv\<close>. Inside the
  branch taken when all four variables are true, \<^verbatim>\<open>merged\<close> is a string.
\<close>

definition main :: "ext \<Rightarrow> string list \<Rightarrow> world \<Rightarrow> (exn + unit) \<times> world" where
  "main x argv w =
     (if length argv > 1 \<and> argv ! 1 = ''--mergetool'' then
        (let local = environ x ''LOCAL''; base = environ x ''BASE'';
             remote = environ x ''REMOTE''; merged = environ x ''MERGED''
         in if list_all truthy [local, base, remote, merged] then
              (case init x w of
                 (Inl e, w1) \<Rightarrow> (Inl e, w1)
               | (Inr resolver, w1) \<Rightarrow>
                   (case merged of
                      None \<Rightarrow> (Inl TypeError, w1)
                    | Some file_path \<Rightarrow>
                        (case process_file x file_path (resolver, w1) of
                           (Inl e, sw) \<Rightarrow> (Inl e, snd sw)
                         | (Inr u, sw) \<Rightarrow> (Inl (SystemExit 0), snd sw))))
            else regular x w)
      else regular x w)"

text \<open>
  The exit status of the process: 0 when \<^verbatim>\<open>main\<close> returns, the argument of
  \<^verbatim>\<open>sys.exit\<close>, and 1 for an exception that nothing catches.
\<close>

definition exit_code :: "exn + unit \<Rightarrow> int" where
  "exit_code r = (case r of Inr u \<Rightarrow> 0 | Inl (SystemExit n) \<Rightarrow> n | Inl e \<Rightarrow> 1)"

subsection \<open>Example inputs\<close>

text \<open>The resolver as \<^verbatim>\<open>__init__\<close> leaves it when EDITOR is unset.\<close>

definition example_resolver :: GitConflictResolver where
  "example_resolver = \<lparr>editor = ''nano'', view_mode = FILE, context_lines = 3\<rparr>"

text \<open>A file of seven lines with one conflict, and one with five lines before it.\<close>

definition example_content :: "string list" where
  "example_content =
     [''a\<newline>'', ''<<<<<<< HEAD\<newline>'', ''x\<newline>'', ''=======\<newline>'', ''y\<newline>'',
      ''>>>>>>> branch\<newline>'', ''b\<newline>'']"

definition long_content :: "string list" where
  "long_content =
     [''a1\<newline>'', ''a2\<newline>'', ''a3\<newline>'', ''a4\<newline>'', ''a5\<newline>'',
      ''<<<<<<< HEAD\<newline>'', ''x\<newline>'', ''=======\<newline>'', ''y\<newline>'',
      ''>>>>>>> branch\<newline>'', ''b1\<newline>'', ''b2\<newline>'']"

text \<open>The hunk of the seven-line file, and a world with nothing in it.\<close>

definition example_hunk :: ConflictHunk where
  "example_hunk =
     \<lparr>header = ''<<<<<<< HEAD\<newline>'', ours = [''x\<newline>''],
      theirs = [''y\<newline>'', ''>>>>>>> branch\<newline>''],
      context_before = [''a\<newline>''], context_after = [''b\<newline>''], start_line = Some 1\<rparr>"

definition empty_world :: world where
  "empty_world = \<lparr>files = Map.empty, index = [], stdin = [], stdout = []\<rparr>"

text \<open>
  The variables of the scan inside that hunk: after the separator (the first five lines
  of the file read), and before it.
\<close>

definition example_scan :: scan where
  "example_scan =
     \<lparr>hunks = [],
      current_hunk = Some \<lparr>header = ''<<<<<<< HEAD\<newline>'', ours = [''x\<newline>''],
        theirs = [''y\<newline>''], context_before = [], context_after = [], start_line = Some 1\<rparr>,
      state = Some ''theirs'', hunk_start = Some 1\<rparr>"

definition ours_scan :: scan where
  "ours_scan =
     \<lparr>hunks = [],
      current_hunk = Some \<lparr>header = ''<<<<<<< HEAD\<newline>'', ours = [''x\<newline>''],
        theirs = [], context_before = [], context_after = [], start_line = Some 1\<rparr>,
      state = Some ''ours'', hunk_start = Some 1\<rparr>"

text \<open>
  Collaborators for the examples: no environment variable is set, the repository opens
  and has the paths \<^verbatim>\<open>f\<close> and \<^verbatim>\<open>g\<close> unmerged, each at the stages 1, 2 and 3,
  staging succeeds and a subprocess leaves the files as they are. The world holds the
  two files and the lines the user will type.
\<close>

definition example_ext :: ext where
  "example_ext =
     \<lparr>environ = Map.empty, repo_init_ok = True,
      unmerged_blobs = Some [(''f'', [(1, ''f''), (2, ''f''), (3, ''f'')]),
                             (''g'', [(1, ''g''), (2, ''g''), (3, ''g'')])],
      set_order = remdups, index_add_ok = (\<lambda>p. True),
      run_subprocess = (\<lambda>cmd fs. Completed fs)\<rparr>"

definition example_world :: "string list \<Rightarrow> world" where
  "example_world typed =
     \<lparr>files = [''f'' \<mapsto> example_content, ''g'' \<mapsto> long_content], index = [],
      stdin = typed, stdout = []\<rparr>"

text \<open>
  The hunk of the twelve-line file at context size 3, and the resolver after the user
  has switched to the per-hunk view.
\<close>

definition long_hunk :: ConflictHunk where
  "long_hunk =
     \<lparr>header = ''<<<<<<< HEAD\<newline>'', ours = [''x\<newline>''],
      theirs = [''y\<newline>'', ''>>>>>>> branch\<newline>''],
      context_before = [''a3\<newline>'', ''a4\<newline>'', ''a5\<newline>''],
      context_after = [''b1\<newline>'', ''b2\<newline>''], start_line = Some 5\<rparr>"

definition hunk_resolver :: GitConflictResolver where
  "hunk_resolver = \<lparr>editor = ''nano'', view_mode = HUNK, context_lines = 3\<rparr>"

text \<open>
  The same collaborators with the four merge-tool variables set, with all of them but
  MERGED set, and with a repository that has no unmerged path.
\<close>

definition mergetool_ext :: ext where
  "mergetool_ext =
     example_ext\<lparr>environ := [''LOCAL'' \<mapsto> ''f.LOCAL'', ''BASE'' \<mapsto> ''f.BASE'',
                             ''REMOTE'' \<mapsto> ''f.REMOTE'', ''MERGED'' \<mapsto> ''f'']\<rparr>"

definition unset_merged_ext :: ext where
  "unset_merged_ext =
     example_ext\<lparr>environ := [''LOCAL'' \<mapsto> ''f.LOCAL'', ''BASE'' \<mapsto> ''f.BASE'',
                             ''REMOTE'' \<mapsto> ''f.REMOTE'']\<rparr>"

definition clean_ext :: ext where
  "clean_ext = example_ext\<lparr>unmerged_blobs := Some []\<rparr>"

section \<open>The parser on the documented scenario\<close>

text \<open>
  Claim C5. For the file whose lines are \<^verbatim>\<open>a\<close>, \<^verbatim>\<open><<<<<<< HEAD\<close>, \<^verbatim>\<open>x\<close>,
  \<^verbatim>\<open>=======\<close>, \<^verbatim>\<open>y\<close>, \<^verbatim>\<open>>>>>>>> branch\<close>, \<^verbatim>\<open>b\<close> (each with its newline),
  the parser at the initial context size 3 returns exactly one hunk, with ours
  \<^verbatim>\<open>[x]\<close>, theirs \<^verbatim>\<open>[y, >>>>>>> branch]\<close>, context before \<^verbatim>\<open>[a]\<close> and context
  after \<^verbatim>\<open>[b]\<close>; its header is the start-marker line and its start line is 1.
\<close>

theorem parse_documented_scenario:
  "parse_content \<lparr>editor = ed, view_mode = vm, context_lines = 3\<rparr>
     [''a\<newline>'', ''<<<<<<< HEAD\<newline>'', ''x\<newline>'', ''=======\<newline>'', ''y\<newline>'',
      ''>>>>>>> branch\<newline>'', ''b\<newline>'']
   = Inr [\<lparr>header = ''<<<<<<< HEAD\<newline>'', ours = [''x\<newline>''],
            theirs = [''y\<newline>'', ''>>>>>>> branch\<newline>''],
            context_before = [''a\<newline>''], context_after = [''b\<newline>''],
            start_line = Some 1\<rparr>]"
  by code_simp

section \<open>The parser never raises\<close>

text \<open>
  \<^verbatim>\<open>hunk_start\<close> is set whenever a hunk is open, so the TypeError of the model
  cannot occur: the scan returns a list of hunks for every file.
\<close>

lemma scan_line_total:
  assumes "current_hunk sc \<noteq> None \<longrightarrow> hunk_start sc \<noteq> None"
  shows "\<exists>sc'. scan_line self content il sc = Inr sc'
            \<and> (current_hunk sc' \<noteq> None \<longrightarrow> hunk_start sc' \<noteq> None)"
  using assms
  by (cases "current_hunk sc"; cases "hunk_start sc")
     (auto simp: scan_line_def finalize_def Let_def split: prod.splits)

lemma scan_lines_total:
  assumes "current_hunk sc \<noteq> None \<longrightarrow> hunk_start sc \<noteq> None"
  shows "\<exists>sc'. scan_lines self content ils sc = Inr sc'"
  using assms
proof (induction ils arbitrary: sc)
  case Nil
  show ?case by simp
next
  case (Cons il ils)
  from scan_line_total [OF Cons.prems, of self content il] obtain sc1 where
    "scan_line self content il sc = Inr sc1"
    and "current_hunk sc1 \<noteq> None \<longrightarrow> hunk_start sc1 \<noteq> None"
    by blast
  with Cons.IH [of sc1] show ?case by simp
qed

lemma parse_content_total: "\<exists>hs. parse_content self content = Inr hs"
proof -
  have "current_hunk scan_init \<noteq> None \<longrightarrow> hunk_start scan_init \<noteq> None"
    by (simp add: scan_init_def)
  from scan_lines_total [OF this, of self content "enumerate_from 0 content"]
  show ?thesis by (auto simp: parse_content_def)
qed

section \<open>Context windowing\<close>

lemma slice_within:
  assumes "0 \<le> lo" "lo \<le> hi" "hi \<le> int (length xs)"
  shows "slice xs lo hi = drop (nat lo) (take (nat hi) xs)"
  using assms by (simp add: slice_def slice_bound_def Let_def drop_take min_def max_def)

lemma before_window:
  assumes "0 \<le> s" "s \<le> int (length content)" "0 \<le> context_lines self"
  shows "fst (extract_context self content s e) = drop (nat (s - context_lines self)) (take (nat s) content)"
proof -
  have "slice content (max 0 (s - context_lines self)) s
      = drop (nat (max 0 (s - context_lines self))) (take (nat s) content)"
    using assms by (intro slice_within) auto
  moreover have "nat (max 0 (s - context_lines self)) = nat (s - context_lines self)"
    by simp
  ultimately show ?thesis
    by (simp add: extract_context_def Let_def)
qed

lemma after_window:
  assumes "0 \<le> e" "e \<le> int (length content)" "0 \<le> context_lines self"
  shows "snd (extract_context self content s e) = take (nat (context_lines self)) (drop (nat e) content)"
proof -
  let ?k = "context_lines self"
  let ?hi = "min (int (length content)) (e + ?k)"
  have "slice content e ?hi = drop (nat e) (take (nat ?hi) content)"
    using assms by (intro slice_within) auto
  also have "\<dots> = take (nat ?hi - nat e) (drop (nat e) content)"
    by (simp add: drop_take)
  also have "\<dots> = take (nat ?k) (drop (nat e) content)"
  proof (cases "e + ?k \<le> int (length content)")
    case True
    then have "nat ?hi - nat e = nat ?k" using assms by (simp add: min_def)
    then show ?thesis by simp
  next
    case False
    then have "nat ?hi - nat e = length (drop (nat e) content)"
      using assms by (simp add: min_def) 
    moreover have "length (drop (nat e) content) \<le> nat ?k"
      using False assms by simp
    ultimately show ?thesis by simp
  qed
  finally show ?thesis
    by (simp add: extract_context_def Let_def)
qed

text \<open>
  Claim C7. For every content, every hunk span from \<open>s\<close> to \<open>e\<close> inside it and every
  size \<open>k \<ge> 0\<close> (the resolver's \<open>context_lines\<close>), the window function returns the
  last \<open>min k s\<close> lines before line \<open>s\<close> and the first \<open>min k (len - e)\<close> lines from
  line \<open>e\<close> on: at most \<open>k\<close> lines on each side, clipped at the file's start and end.
  The windows at size \<open>k + 3\<close> extend those at size \<open>k\<close>: the old before-window is a
  suffix of the new one, the old after-window a prefix of the new one.
\<close>

theorem extract_context_window:
  assumes "0 \<le> s" and "s \<le> e" and "e \<le> int (length content)"
    and "0 \<le> context_lines self"
  shows "fst (extract_context self content s e)
           = drop (nat (s - context_lines self)) (take (nat s) content)
       \<and> snd (extract_context self content s e)
           = take (nat (context_lines self)) (drop (nat e) content)
       \<and> int (length (fst (extract_context self content s e))) = min (context_lines self) s
       \<and> int (length (snd (extract_context self content s e)))
           = min (context_lines self) (int (length content) - e)
       \<and> suffix (fst (extract_context self content s e))
            (fst (extract_context (self\<lparr>context_lines := context_lines self + 3\<rparr>) content s e))
       \<and> prefix (snd (extract_context self content s e))
            (snd (extract_context (self\<lparr>context_lines := context_lines self + 3\<rparr>) content s e))"
proof -
  let ?k = "context_lines self"
  let ?self' = "self\<lparr>context_lines := ?k + 3\<rparr>"
  have b: "fst (extract_context self content s e) = drop (nat (s - ?k)) (take (nat s) content)"
    using assms by (intro before_window) auto
  have a: "snd (extract_context self content s e) = take (nat ?k) (drop (nat e) content)"
    using assms by (intro after_window) auto
  have b': "fst (extract_context ?self' content s e) = drop (nat (s - (?k + 3))) (take (nat s) content)"
    using assms before_window [of s content ?self' e] by simp
  have a': "snd (extract_context ?self' content s e) = take (nat (?k + 3)) (drop (nat e) content)"
    using assms after_window [of e content ?self' s] by simp
  have lb: "int (length (fst (extract_context self content s e))) = min ?k s"
    using assms unfolding b by (simp add: min_def) linarith
  have la: "int (length (snd (extract_context self content s e))) = min ?k (int (length content) - e)"
    using assms unfolding a by (simp add: min_def) linarith
  have "drop (nat (s - ?k)) (take (nat s) content)
      = drop (nat (s - ?k) - nat (s - (?k + 3))) (drop (nat (s - (?k + 3))) (take (nat s) content))"
    by simp
  then have sb: "suffix (fst (extract_context self content s e)) (fst (extract_context ?self' content s e))"
    unfolding b b' by (metis suffix_drop)
  have "take (nat ?k) (drop (nat e) content) = take (nat ?k) (take (nat (?k + 3)) (drop (nat e) content))"
    using assms by (simp add: min_def)
  then have pa: "prefix (snd (extract_context self content s e)) (snd (extract_context ?self' content s e))"
    unfolding a a' by (metis take_is_prefix)
  from b a lb la sb pa show ?thesis by blast
qed


theorem extract_context_window_witness:
  "(0::int) \<le> 5 \<and> (5::int) \<le> 10 \<and> 10 \<le> int (length long_content)
   \<and> 0 \<le> context_lines example_resolver
   \<and> fst (extract_context example_resolver long_content 5 10)
        = [''a3\<newline>'', ''a4\<newline>'', ''a5\<newline>'']
   \<and> snd (extract_context example_resolver long_content 5 10) = [''b1\<newline>'', ''b2\<newline>'']
   \<and> suffix (fst (extract_context example_resolver long_content 5 10))
         (fst (extract_context
                (example_resolver\<lparr>context_lines := context_lines example_resolver + 3\<rparr>)
                long_content 5 10))
   \<and> prefix (snd (extract_context example_resolver long_content 5 10))
         (snd (extract_context
                (example_resolver\<lparr>context_lines := context_lines example_resolver + 3\<rparr>)
                long_content 5 10))"
proof -
  have h1: "(0::int) \<le> 5" and h2: "(5::int) \<le> 10" by simp_all
  have h3: "10 \<le> int (length long_content)" by (simp add: long_content_def)
  have h4: "0 \<le> context_lines example_resolver" by (simp add: example_resolver_def)
  have b: "drop (nat (5 - context_lines example_resolver)) (take (nat 5) long_content)
             = [''a3\<newline>'', ''a4\<newline>'', ''a5\<newline>'']"
    by (simp add: example_resolver_def long_content_def)
  have a: "take (nat (context_lines example_resolver)) (drop (nat 10) long_content)
             = [''b1\<newline>'', ''b2\<newline>'']"
    by (simp add: example_resolver_def long_content_def)
  from extract_context_window [OF h1 h2 h3 h4] h1 h2 h3 h4 show ?thesis
    unfolding b a by blast
qed

section \<open>Separator lines inside a hunk\<close>

lemma separator_not_start: "startswith line ''======='' \<Longrightarrow> \<not> startswith line ''<<<<<<<''"
  by (auto simp: startswith_def prefix_def)

lemma separator_not_end: "startswith line ''======='' \<Longrightarrow> \<not> startswith line ''>>>>>>>''"
  by (auto simp: startswith_def prefix_def)

text \<open>
  Claim C9. A line beginning with \<^verbatim>\<open>=======\<close> that is read while the state is
  \<^verbatim>\<open>'theirs'\<close> is appended verbatim to the theirs buffer of the open hunk and is
  not treated as a marker. Read while the state is \<^verbatim>\<open>'ours'\<close>, it switches the
  state to \<^verbatim>\<open>'theirs'\<close> and enters neither buffer. In every state other than
  \<^verbatim>\<open>'ours'\<close> the state stays as it is, no hunk is closed, and the open hunk
  changes at most by that appended line.
\<close>

theorem separator_in_theirs_is_body:
  assumes "startswith line ''======='' "
  shows "(state sc = Some ''theirs'' \<longrightarrow> current_hunk sc = Some h \<longrightarrow>
            scan_line self content (i, line) sc
              = Inr (sc\<lparr>current_hunk := Some (h\<lparr>theirs := theirs h @ [line]\<rparr>)\<rparr>))
       \<and> (state sc = Some ''ours'' \<longrightarrow>
            scan_line self content (i, line) sc = Inr (sc\<lparr>state := Some ''theirs''\<rparr>))
       \<and> (state sc \<noteq> Some ''ours'' \<longrightarrow>
            (\<exists>sc'. scan_line self content (i, line) sc = Inr sc' \<and> state sc' = state sc
                   \<and> hunks sc' = hunks sc
                   \<and> (current_hunk sc' = current_hunk sc
                      \<or> (\<exists>h'. current_hunk sc = Some h'
                            \<and> current_hunk sc' = Some (h'\<lparr>theirs := theirs h' @ [line]\<rparr>)))))"
proof -
  note ns = separator_not_start [OF assms] and ne = separator_not_end [OF assms]
  have 1: "scan_line self content (i, line) sc
             = Inr (sc\<lparr>current_hunk := Some (h\<lparr>theirs := theirs h @ [line]\<rparr>)\<rparr>)"
    if "state sc = Some ''theirs''" "current_hunk sc = Some h"
    using that ns ne by (simp add: scan_line_def)
  have 2: "scan_line self content (i, line) sc = Inr (sc\<lparr>state := Some ''theirs''\<rparr>)"
    if "state sc = Some ''ours''"
    using that ns assms by (simp add: scan_line_def)
  have 3: "\<exists>sc'. scan_line self content (i, line) sc = Inr sc' \<and> state sc' = state sc
                   \<and> hunks sc' = hunks sc
                   \<and> (current_hunk sc' = current_hunk sc
                      \<or> (\<exists>h'. current_hunk sc = Some h'
                            \<and> current_hunk sc' = Some (h'\<lparr>theirs := theirs h' @ [line]\<rparr>)))"
    if "state sc \<noteq> Some ''ours''"
    using that ns ne by (cases "current_hunk sc") (auto simp: scan_line_def)
  from 1 2 3 show ?thesis by blast
qed

theorem separator_in_theirs_is_body_witness:
  "startswith ''=======\<newline>'' ''=======''
   \<and> state example_scan = Some ''theirs''
   \<and> state example_scan \<noteq> Some ''ours''
   \<and> current_hunk example_scan
        = Some \<lparr>header = ''<<<<<<< HEAD\<newline>'', ours = [''x\<newline>''],
            theirs = [''y\<newline>''], context_before = [], context_after = [], start_line = Some 1\<rparr>
   \<and> scan_line example_resolver example_content (5, ''=======\<newline>'') example_scan
        = Inr (example_scan\<lparr>current_hunk :=
                 Some \<lparr>header = ''<<<<<<< HEAD\<newline>'', ours = [''x\<newline>''],
                   theirs = [''y\<newline>'', ''=======\<newline>''], context_before = [],
                   context_after = [], start_line = Some 1\<rparr>\<rparr>)
   \<and> state ours_scan = Some ''ours''
   \<and> scan_line example_resolver example_content (3, ''=======\<newline>'') ours_scan
        = Inr (ours_scan\<lparr>state := Some ''theirs''\<rparr>)"
proof -
  have sep: "startswith ''=======\<newline>'' ''======='' "
    by (simp add: startswith_def)
  have st: "state example_scan = Some ''theirs''" and nst: "state example_scan \<noteq> Some ''ours''"
    and ch: "current_hunk example_scan
        = Some \<lparr>header = ''<<<<<<< HEAD\<newline>'', ours = [''x\<newline>''],
            theirs = [''y\<newline>''], context_before = [], context_after = [], start_line = Some 1\<rparr>"
    and so: "state ours_scan = Some ''ours''"
    by (simp_all add: example_scan_def ours_scan_def)
  from separator_in_theirs_is_body [OF sep, of example_scan
      "\<lparr>header = ''<<<<<<< HEAD\<newline>'', ours = [''x\<newline>''],
            theirs = [''y\<newline>''], context_before = [], context_after = [], start_line = Some 1\<rparr>"
      example_resolver example_content 5] st ch
  have a: "scan_line example_resolver example_content (5, ''=======\<newline>'') example_scan
        = Inr (example_scan\<lparr>current_hunk :=
                 Some \<lparr>header = ''<<<<<<< HEAD\<newline>'', ours = [''x\<newline>''],
                   theirs = [''y\<newline>'', ''=======\<newline>''], context_before = [],
                   context_after = [], start_line = Some 1\<rparr>\<rparr>)"
    by simp
  from separator_in_theirs_is_body [OF sep, of ours_scan _ example_resolver example_content 3] so
  have b: "scan_line example_resolver example_content (3, ''=======\<newline>'') ours_scan
        = Inr (ours_scan\<lparr>state := Some ''theirs''\<rparr>)"
    by simp
  from sep st nst ch a so b show ?thesis by simp
qed

section \<open>The per-hunk renderer\<close>

lemma stdout_print: "stdout (print ps w) = stdout w @ [ps @ [Text nl]]"
  by (simp add: print_def)

lemma stdout_print_lines:
  "stdout (print_lines c ls w) = stdout w @ map (\<lambda>line. [c, Text (rstrip line), Text nl]) ls"
proof -
  have "stdout (foldl (\<lambda>w' line. print [c, Text (rstrip line)] w') w0 ls)
          = stdout w0 @ map (\<lambda>line. [c, Text (rstrip line), Text nl]) ls" for w0
    by (induction ls arbitrary: w0) (simp_all add: stdout_print)
  then show ?thesis by (simp add: print_lines_def)
qed

lemma stdout_display_hunk:
  "stdout (display_hunk hunk idx w)
     = stdout w
       @ [[Text nl, Fore BLUE, Text (''Conflict '' @ str_int (idx + 1) @ '':''), Text nl],
          [Fore BLUE, Text (replicate 80 CHR ''=''), Text nl]]
       @ map (\<lambda>line. [Style_RESET_ALL, Text (rstrip line), Text nl]) (context_before hunk)
       @ [[Fore RED, Text (header hunk), Text nl], [Fore RED, Text ''<<<<<<< ours'', Text nl]]
       @ map (\<lambda>line. [Fore RED, Text (rstrip line), Text nl]) (ours hunk)
       @ [[Fore YELLOW, Text ''======='', Text nl]]
       @ map (\<lambda>line. [Fore GREEN, Text (rstrip line), Text nl]) (theirs hunk)
       @ [[Fore GREEN, Text ''>>>>>>> theirs'', Text nl]]
       @ map (\<lambda>line. [Style_RESET_ALL, Text (rstrip line), Text nl]) (context_after hunk)"
  unfolding display_hunk_def Let_def stdout_print_lines stdout_print by simp

lemma end_not_start: "startswith line ''>>>>>>>'' \<Longrightarrow> \<not> startswith line ''<<<<<<<''"
  by (auto simp: startswith_def prefix_def)

text \<open>
  Claim C3, as the code has it. For every hunk the per-hunk renderer prints, in this
  order: the two banner lines, the context-before lines, the header line, the
  normalized ours tag, the ours lines, the normalized separator tag, every line of the
  theirs buffer, the normalized theirs tag, and the context-after lines. Nothing is
  taken off the theirs buffer: when the parser closes a hunk at an end marker, that
  line is the last element of the buffer, and it is printed with the theirs body.
\<close>

theorem display_hunk_prints_whole_theirs:
  "stdout (display_hunk hunk idx w)
     = stdout w
       @ [[Text nl, Fore BLUE, Text (''Conflict '' @ str_int (idx + 1) @ '':''), Text nl],
          [Fore BLUE, Text (replicate 80 CHR ''=''), Text nl]]
       @ map (\<lambda>line. [Style_RESET_ALL, Text (rstrip line), Text nl]) (context_before hunk)
       @ [[Fore RED, Text (header hunk), Text nl], [Fore RED, Text ''<<<<<<< ours'', Text nl]]
       @ map (\<lambda>line. [Fore RED, Text (rstrip line), Text nl]) (ours hunk)
       @ [[Fore YELLOW, Text ''======='', Text nl]]
       @ map (\<lambda>line. [Fore GREEN, Text (rstrip line), Text nl]) (theirs hunk)
       @ [[Fore GREEN, Text ''>>>>>>> theirs'', Text nl]]
       @ map (\<lambda>line. [Style_RESET_ALL, Text (rstrip line), Text nl]) (context_after hunk)
   \<and> (startswith line ''>>>>>>>'' \<longrightarrow> state sc = Some ''theirs'' \<longrightarrow>
        current_hunk sc = Some h \<longrightarrow> hunk_start sc = Some s \<longrightarrow>
        scan_line self content (i, line) sc
          = Inr (sc\<lparr>hunks := hunks sc @
                   [h\<lparr>theirs := theirs h @ [line],
                      context_before := fst (extract_context self content s (i + 1)),
                      context_after := snd (extract_context self content s (i + 1))\<rparr>],
                 current_hunk := None, state := None\<rparr>))"
proof -
  note render = stdout_display_hunk [of hunk idx w]
  have closes: "scan_line self content (i, line) sc
          = Inr (sc\<lparr>hunks := hunks sc @
                   [h\<lparr>theirs := theirs h @ [line],
                      context_before := fst (extract_context self content s (i + 1)),
                      context_after := snd (extract_context self content s (i + 1))\<rparr>],
                 current_hunk := None, state := None\<rparr>)"
    if "startswith line ''>>>>>>>''" "state sc = Some ''theirs''"
       "current_hunk sc = Some h" "hunk_start sc = Some s"
    using that end_not_start [OF that(1)]
    by (simp add: scan_line_def finalize_def split: prod.splits)
  from render closes show ?thesis by blast
qed

theorem display_hunk_prints_whole_theirs_witness:
  "startswith ''>>>>>>> branch\<newline>'' ''>>>>>>>''
   \<and> state example_scan = Some ''theirs''
   \<and> current_hunk example_scan
        = Some \<lparr>header = ''<<<<<<< HEAD\<newline>'', ours = [''x\<newline>''],
            theirs = [''y\<newline>''], context_before = [], context_after = [], start_line = Some 1\<rparr>
   \<and> hunk_start example_scan = Some 1
   \<and> scan_line example_resolver example_content (5, ''>>>>>>> branch\<newline>'') example_scan
        = Inr (example_scan\<lparr>hunks := [example_hunk], current_hunk := None, state := None\<rparr>)
   \<and> [Fore GREEN, Text ''>>>>>>> branch'', Text nl]
        \<in> set (stdout (display_hunk example_hunk 0 empty_world))"
proof -
  have e: "startswith ''>>>>>>> branch\<newline>'' ''>>>>>>>''"
    by (simp add: startswith_def)
  have st: "state example_scan = Some ''theirs''"
    and ch: "current_hunk example_scan
        = Some \<lparr>header = ''<<<<<<< HEAD\<newline>'', ours = [''x\<newline>''],
            theirs = [''y\<newline>''], context_before = [], context_after = [], start_line = Some 1\<rparr>"
    and hs: "hunk_start example_scan = Some 1"
    by (simp_all add: example_scan_def)
  have ctx: "extract_context example_resolver example_content 1 6 = ([''a\<newline>''], [''b\<newline>''])"
    by code_simp
  have rs: "rstrip ''>>>>>>> branch\<newline>'' = ''>>>>>>> branch''"
    by code_simp
  note t = display_hunk_prints_whole_theirs [of example_hunk 0 empty_world
      "''>>>>>>> branch\<newline>''" example_scan
      "\<lparr>header = ''<<<<<<< HEAD\<newline>'', ours = [''x\<newline>''],
            theirs = [''y\<newline>''], context_before = [], context_after = [], start_line = Some 1\<rparr>"
      1 example_resolver example_content 5]
  from t e st ch hs
  have a: "scan_line example_resolver example_content (5, ''>>>>>>> branch\<newline>'') example_scan
        = Inr (example_scan\<lparr>hunks := [example_hunk], current_hunk := None, state := None\<rparr>)"
    by (simp add: ctx example_hunk_def example_scan_def)
  from t have "stdout (display_hunk example_hunk 0 empty_world)
     = stdout empty_world
       @ [[Text nl, Fore BLUE, Text (''Conflict '' @ str_int (0 + 1) @ '':''), Text nl],
          [Fore BLUE, Text (replicate 80 CHR ''=''), Text nl]]
       @ map (\<lambda>line. [Style_RESET_ALL, Text (rstrip line), Text nl]) (context_before example_hunk)
       @ [[Fore RED, Text (header example_hunk), Text nl], [Fore RED, Text ''<<<<<<< ours'', Text nl]]
       @ map (\<lambda>line. [Fore RED, Text (rstrip line), Text nl]) (ours example_hunk)
       @ [[Fore YELLOW, Text ''======='', Text nl]]
       @ map (\<lambda>line. [Fore GREEN, Text (rstrip line), Text nl]) (theirs example_hunk)
       @ [[Fore GREEN, Text ''>>>>>>> theirs'', Text nl]]
       @ map (\<lambda>line. [Style_RESET_ALL, Text (rstrip line), Text nl]) (context_after example_hunk)"
    by blast
  then have b: "[Fore GREEN, Text ''>>>>>>> branch'', Text nl]
        \<in> set (stdout (display_hunk example_hunk 0 empty_world))"
    by (simp add: example_hunk_def rs)
  from e st ch hs a b show ?thesis by simp
qed


text \<open>
  The claim as the specification words it (the end-marker line stripped before
  rendering) fails on the seven-line file: the renderer prints \<^verbatim>\<open>>>>>>>> branch\<close>
  between \<^verbatim>\<open>y\<close> and the normalized theirs tag.
\<close>

theorem display_hunk_strips_end_marker_counterexample:
  "parse_content example_resolver example_content = Inr [example_hunk]
   \<and> stdout (display_hunk example_hunk 0 empty_world)
       = [[Text ''\<newline>'', Fore BLUE, Text ''Conflict 1:'', Text ''\<newline>''],
          [Fore BLUE, Text (replicate 80 CHR ''=''), Text ''\<newline>''],
          [Style_RESET_ALL, Text ''a'', Text ''\<newline>''],
          [Fore RED, Text ''<<<<<<< HEAD\<newline>'', Text ''\<newline>''],
          [Fore RED, Text ''<<<<<<< ours'', Text ''\<newline>''],
          [Fore RED, Text ''x'', Text ''\<newline>''],
          [Fore YELLOW, Text ''======='', Text ''\<newline>''],
          [Fore GREEN, Text ''y'', Text ''\<newline>''],
          [Fore GREEN, Text ''>>>>>>> branch'', Text ''\<newline>''],
          [Fore GREEN, Text ''>>>>>>> theirs'', Text ''\<newline>''],
          [Style_RESET_ALL, Text ''b'', Text ''\<newline>'']]
   \<and> stdout (display_hunk example_hunk 0 empty_world)
       \<noteq> [[Text ''\<newline>'', Fore BLUE, Text ''Conflict 1:'', Text ''\<newline>''],
          [Fore BLUE, Text (replicate 80 CHR ''=''), Text ''\<newline>''],
          [Style_RESET_ALL, Text ''a'', Text ''\<newline>''],
          [Fore RED, Text ''<<<<<<< HEAD\<newline>'', Text ''\<newline>''],
          [Fore RED, Text ''<<<<<<< ours'', Text ''\<newline>''],
          [Fore RED, Text ''x'', Text ''\<newline>''],
          [Fore YELLOW, Text ''======='', Text ''\<newline>''],
          [Fore GREEN, Text ''y'', Text ''\<newline>''],
          [Fore GREEN, Text ''>>>>>>> theirs'', Text ''\<newline>''],
          [Style_RESET_ALL, Text ''b'', Text ''\<newline>'']]"
  by code_simp



section \<open>What rendering and prompting leave alone\<close>

text \<open>
  Printing, the two renderers and the prompt touch the terminal only: the files and
  the index stay as they are, and only the prompt reads from the input.
\<close>

lemma print_keeps:
  "files (print ps w) = files w \<and> index (print ps w) = index w \<and> stdin (print ps w) = stdin w"
  by (simp add: print_def)

lemma foldl_keeps:
  assumes "\<And>w a. files (f w a) = files w \<and> index (f w a) = index w \<and> stdin (f w a) = stdin w"
  shows "files (foldl f w xs) = files w \<and> index (foldl f w xs) = index w
           \<and> stdin (foldl f w xs) = stdin w"
  by (induction xs arbitrary: w) (simp_all add: assms)

lemma print_lines_keeps:
  "files (print_lines c ls w) = files w \<and> index (print_lines c ls w) = index w
     \<and> stdin (print_lines c ls w) = stdin w"
  unfolding print_lines_def by (rule foldl_keeps) (simp add: print_keeps)

lemma display_hunk_keeps:
  "files (display_hunk h i w) = files w \<and> index (display_hunk h i w) = index w
     \<and> stdin (display_hunk h i w) = stdin w"
  by (simp add: display_hunk_def Let_def print_keeps print_lines_keeps)

lemma get_file_content_keeps:
  "files (snd (get_file_content p w)) = files w \<and> index (snd (get_file_content p w)) = index w
     \<and> stdin (snd (get_file_content p w)) = stdin w"
  by (simp add: get_file_content_def print_keeps split: option.splits)

lemma file_view_lines_keeps:
  "files (snd (foldl file_view_line bw ils)) = files (snd bw)
     \<and> index (snd (foldl file_view_line bw ils)) = index (snd bw)
     \<and> stdin (snd (foldl file_view_line bw ils)) = stdin (snd bw)"
  by (induction ils arbitrary: bw) (simp_all add: file_view_line_def Let_def print_noend_def)

lemma display_file_view_keeps:
  "files (display_file_view p hs w) = files w \<and> index (display_file_view p hs w) = index w
     \<and> stdin (display_file_view p hs w) = stdin w"
  using get_file_content_keeps [of p w]
  by (cases "get_file_content p w")
     (simp add: display_file_view_def Let_def file_view_lines_keeps print_keeps)

lemma render_keeps:
  "files (render self p hs w) = files w \<and> index (render self p hs w) = index w
     \<and> stdin (render self p hs w) = stdin w"
proof (cases "view_mode self = FILE")
  case True
  then show ?thesis by (simp add: render_def display_file_view_keeps)
next
  case False
  have "files (foldl (\<lambda>w' ih. display_hunk (snd ih) (fst ih) w') w (enumerate_from 0 hs)) = files w
      \<and> index (foldl (\<lambda>w' ih. display_hunk (snd ih) (fst ih) w') w (enumerate_from 0 hs)) = index w
      \<and> stdin (foldl (\<lambda>w' ih. display_hunk (snd ih) (fst ih) w') w (enumerate_from 0 hs)) = stdin w"
    by (rule foldl_keeps) (simp add: display_hunk_keeps)
  with False show ?thesis by (simp add: render_def)
qed

lemma print_option_keeps:
  "files (print_option w kv) = files w \<and> index (print_option w kv) = index w
     \<and> stdin (print_option w kv) = stdin w"
  by (simp add: print_option_def print_keeps)

lemma prompt_user_keeps:
  "files (snd (prompt_user self w)) = files w \<and> index (snd (prompt_user self w)) = index w"
proof -
  define w2 where "w2 = foldl print_option (print [Text (nl @ ''Options:'')] w) (options self)"
  have k: "files w2 = files w \<and> index w2 = index w"
    using foldl_keeps [of print_option, OF print_option_keeps] print_keeps
    by (simp add: w2_def)
  obtain r rest out where
    "read_choice (map fst (options self)) (stdin w2) (stdout w2) = (r, rest, out)"
    by (cases "read_choice (map fst (options self)) (stdin w2) (stdout w2)")
  then have "prompt_user self w = (r, w2\<lparr>stdin := rest, stdout := out\<rparr>)"
    unfolding prompt_user_def Let_def w2_def [symmetric] by simp
  with k show ?thesis by simp
qed

lemma option_keys: "map fst (options self) = [''o'', ''t'', ''e'', ''v'', ''m'', ''c'', ''s'', ''q'']"
  by (simp add: options_def)

text \<open>A valid first line is the choice, and only that line is read.\<close>

lemma prompt_user_valid:
  assumes "stdin w = l # ls" and "lower (strip l) \<in> set (map fst (options self))"
  shows "fst (prompt_user self w) = Inr (lower (strip l))
       \<and> stdin (snd (prompt_user self w)) = ls"
proof -
  define w2 where "w2 = foldl print_option (print [Text (nl @ ''Options:'')] w) (options self)"
  have s: "stdin w2 = l # ls"
    using foldl_keeps [of print_option, OF print_option_keeps] print_keeps assms(1)
    by (simp add: w2_def)
  have "read_choice (map fst (options self)) (stdin w2) (stdout w2)
          = (Inr (lower (strip l)), ls, stdout w2 @ [input_prompt])"
    using assms(2) by (simp add: s Let_def)
  then have "prompt_user self w
          = (Inr (lower (strip l)), w2\<lparr>stdin := ls, stdout := stdout w2 @ [input_prompt]\<rparr>)"
    unfolding prompt_user_def Let_def w2_def [symmetric] by simp
  then show ?thesis by simp
qed

lemma prompt_user_eof:
  assumes "stdin w = []"
  shows "fst (prompt_user self w) = Inl EOFError"
proof -
  define w2 where "w2 = foldl print_option (print [Text (nl @ ''Options:'')] w) (options self)"
  have s: "stdin w2 = []"
    using foldl_keeps [of print_option, OF print_option_keeps] print_keeps assms(1)
    by (simp add: w2_def)
  have "read_choice (map fst (options self)) (stdin w2) (stdout w2)
          = (Inl EOFError, [], stdout w2 @ [input_prompt])"
    by (simp add: s)
  then have "prompt_user self w
          = (Inl EOFError, w2\<lparr>stdin := [], stdout := stdout w2 @ [input_prompt]\<rparr>)"
    unfolding prompt_user_def Let_def w2_def [symmetric] by simp
  then show ?thesis by simp
qed

text \<open>The pass of the loop when the next line typed is a valid choice.\<close>

lemma iteration_valid:
  assumes "stdin w = l # ls" and "lower (strip l) \<in> set (map fst (options self))"
  shows "\<exists>w2. iteration x p hs (self, w) = dispatch x p hs self (lower (strip l)) w2
            \<and> files w2 = files w \<and> index w2 = index w \<and> stdin w2 = ls"
proof -
  let ?w1 = "render self p hs w"
  have s1: "stdin ?w1 = l # ls" using render_keeps [of self p hs w] assms(1) by simp
  obtain r w2 where pu: "prompt_user self ?w1 = (r, w2)"
    by (cases "prompt_user self ?w1")
  from prompt_user_valid [OF s1 assms(2)] pu
  have r: "r = Inr (lower (strip l))" and s2: "stdin w2 = ls" by simp_all
  from prompt_user_keeps [of self ?w1] pu render_keeps [of self p hs w]
  have k: "files w2 = files w \<and> index w2 = index w" by simp
  have "iteration x p hs (self, w) = dispatch x p hs self (lower (strip l)) w2"
    unfolding iteration_def Let_def by (simp add: pu r)
  with k s2 show ?thesis by blast
qed

section \<open>The choices that resolve or skip\<close>

text \<open>
  The choices \<^verbatim>\<open>o\<close>, \<^verbatim>\<open>t\<close> and \<^verbatim>\<open>s\<close> all reach the last branch of the loop,
  which looks up \<^verbatim>\<open>self.resolve_hunk\<close>.
\<close>

lemma parse_example: "parse_content example_resolver example_content = Inr [example_hunk]"
  by code_simp

lemma parse_long: "parse_content hunk_resolver long_content = Inr [long_hunk]"
  by code_simp

lemma typed_choices:
  "lower (strip ''o'') = ''o''" "lower (strip ''t'') = ''t''" "lower (strip ''s'') = ''s''"
  "lower (strip ''c'') = ''c''" "lower (strip ''q'') = ''q''" "lower (strip ''m'') = ''m''"
  by code_simp+

lemma dispatch_resolve:
  assumes "choice = ''o'' \<or> choice = ''t'' \<or> choice = ''s''"
  shows "dispatch x p hs self choice w = Raised (AttributeError ''resolve_hunk'') (self, w)"
  using assms by (auto simp: dispatch_def)

lemma process_loop_continue:
  "iteration x p hs sw = Continue sw' \<Longrightarrow> process_loop x p hs sw = process_loop x p hs sw'"
  by (subst process_loop.simps) simp

lemma process_loop_raised:
  "iteration x p hs sw = Raised e sw' \<Longrightarrow> process_loop x p hs sw = (Inl e, sw')"
  by (subst process_loop.simps) simp

lemma process_loop_break:
  "iteration x p hs sw = Break sw' \<Longrightarrow> process_loop x p hs sw = (Inr (), sw')"
  by (subst process_loop.simps) simp

lemma process_loop_resolve:
  assumes "stdin w = l # ls"
    and "lower (strip l) = ''o'' \<or> lower (strip l) = ''t'' \<or> lower (strip l) = ''s''"
  shows "\<exists>w2. process_loop x p hs (self, w) = (Inl (AttributeError ''resolve_hunk''), self, w2)
            \<and> files w2 = files w \<and> index w2 = index w \<and> stdin w2 = ls"
proof -
  from assms(2) have "lower (strip l) \<in> set (map fst (options self))"
    by (auto simp: option_keys)
  from iteration_valid [OF assms(1) this, of x p hs] obtain w2 where
    it: "iteration x p hs (self, w) = dispatch x p hs self (lower (strip l)) w2"
    and k: "files w2 = files w \<and> index w2 = index w \<and> stdin w2 = ls"
    by blast
  from it dispatch_resolve [OF assms(2)]
  have "iteration x p hs (self, w) = Raised (AttributeError ''resolve_hunk'') (self, w2)"
    by simp
  from process_loop_raised [OF this] k show ?thesis by blast
qed

lemma get_conflicts_example:
  "get_conflicts example_resolver ''f'' (example_world typed)
     = (Inr [example_hunk], example_world typed)"
  by (simp add: get_conflicts_def get_file_content_def example_world_def parse_example)

lemma process_file_example_resolve:
  assumes "lower (strip l) = ''o'' \<or> lower (strip l) = ''t'' \<or> lower (strip l) = ''s''"
  shows "\<exists>w2. process_file x ''f'' (example_resolver, example_world (l # ls))
              = (Inl (AttributeError ''resolve_hunk''), example_resolver, w2)
            \<and> files w2 = files (example_world (l # ls)) \<and> index w2 = []  \<and> stdin w2 = ls"
proof -
  have s: "stdin (example_world (l # ls)) = l # ls" by (simp add: example_world_def)
  have i: "index (example_world (l # ls)) = []" by (simp add: example_world_def)
  have "example_hunk # [] \<noteq> []" by simp
  from process_loop_resolve [OF s assms, of x "''f''" "[example_hunk]" example_resolver] i
  show ?thesis
    by (simp add: process_file_def get_conflicts_example)
qed

lemma main_regular_example:
  "main example_ext [''git-simple-merge''] w = (Inl (AttributeError ''a_path''), w)"
  by (simp add: main_def regular_def init_def get_conflicted_files_def a_path_def
        example_ext_def)

lemma main_mergetool_example:
  "main mergetool_ext [''git-simple-merge'', ''--mergetool''] w
     = (case process_file mergetool_ext ''f'' (example_resolver, w) of
          (Inl e, sw) \<Rightarrow> (Inl e, snd sw)
        | (Inr u, sw) \<Rightarrow> (Inl (SystemExit 0), snd sw))"
  by (simp add: main_def init_def truthy_def mergetool_ext_def example_ext_def
        example_resolver_def)

text \<open>
  Claim C1, on the code. On the seven-line file (a well-formed single-hunk file), the
  keep-ours command, and likewise the keep-theirs command, ends \<^verbatim>\<open>process_file\<close>
  with AttributeError for \<^verbatim>\<open>resolve_hunk\<close>: the file still holds all seven lines,
  markers and both bodies, and no Resolved state is reached. Called as a merge tool on
  that file, the program ends with this exception and exit status 1. Called without
  an argument it ends with exit status 1 as well, but before any prompt, in
  \<^verbatim>\<open>get_conflicted_files\<close>.
\<close>

theorem keep_ours_raises_AttributeError:
  "fst (process_file example_ext ''f'' (example_resolver, example_world [''o'']))
     = Inl (AttributeError ''resolve_hunk'')
   \<and> files (snd (snd (process_file example_ext ''f'' (example_resolver, example_world [''o'']))))
       ''f'' = Some example_content
   \<and> fst (process_file example_ext ''f'' (example_resolver, example_world [''t'']))
     = Inl (AttributeError ''resolve_hunk'')
   \<and> files (snd (snd (process_file example_ext ''f'' (example_resolver, example_world [''t'']))))
       ''f'' = Some example_content
   \<and> exit_code (fst (main example_ext [''git-simple-merge''] (example_world [''o'']))) = 1
   \<and> fst (main mergetool_ext [''git-simple-merge'', ''--mergetool''] (example_world [''o'']))
     = Inl (AttributeError ''resolve_hunk'')
   \<and> exit_code (fst (main mergetool_ext [''git-simple-merge'', ''--mergetool'']
                       (example_world [''o'']))) = 1
   \<and> files (snd (main mergetool_ext [''git-simple-merge'', ''--mergetool'']
                    (example_world [''o'']))) ''f'' = Some example_content"
proof -
  have f: "files (example_world typed) ''f'' = Some example_content" for typed
    by (simp add: example_world_def)
  obtain wm where m: "process_file mergetool_ext ''f'' (example_resolver, example_world [''o''])
        = (Inl (AttributeError ''resolve_hunk''), example_resolver, wm)"
      and fm: "files wm = files (example_world [''o''])"
    using process_file_example_resolve [of "''o''" mergetool_ext "[]"] typed_choices by auto
  have mm: "main mergetool_ext [''git-simple-merge'', ''--mergetool''] (example_world [''o''])
        = (Inl (AttributeError ''resolve_hunk''), wm)"
    by (simp add: main_mergetool_example m)
  obtain w2 where o: "process_file example_ext ''f'' (example_resolver, example_world [''o''])
        = (Inl (AttributeError ''resolve_hunk''), example_resolver, w2)"
      and fo: "files w2 = files (example_world [''o''])"
    using process_file_example_resolve [of "''o''" example_ext "[]"] typed_choices by auto
  obtain w3 where t: "process_file example_ext ''f'' (example_resolver, example_world [''t''])
        = (Inl (AttributeError ''resolve_hunk''), example_resolver, w3)"
      and ft: "files w3 = files (example_world [''t''])"
    using process_file_example_resolve [of "''t''" example_ext "[]"] typed_choices by auto
  have "exit_code (fst (main example_ext [''git-simple-merge''] (example_world [''o'']))) = 1"
    by (simp add: main_regular_example exit_code_def)
  with o fo t ft f mm fm show ?thesis by (simp add: exit_code_def)
qed

text \<open>
  Claim C2, on the code. With \<^verbatim>\<open>s\<close> typed twice, the skip command on the first of
  two files leaves the files unchanged but ends the loop over the files with
  AttributeError for \<^verbatim>\<open>resolve_hunk\<close>: the second \<^verbatim>\<open>s\<close> is never read and the
  second file is never processed. Called as a merge tool on the first file, the
  program ends with this exception and exit status 1, the files unchanged. Called
  without an argument it ends with exit status 1 as well, but before any prompt, in
  \<^verbatim>\<open>get_conflicted_files\<close>.
\<close>

theorem skip_raises_AttributeError:
  "fst (process_files example_ext [''f'', ''g''] (example_resolver, example_world [''s'', ''s'']))
     = Inl (AttributeError ''resolve_hunk'')
   \<and> stdin (snd (snd (process_files example_ext [''f'', ''g'']
                         (example_resolver, example_world [''s'', ''s''])))) = [''s'']
   \<and> files (snd (snd (process_files example_ext [''f'', ''g'']
                         (example_resolver, example_world [''s'', ''s'']))))
       = files (example_world [''s'', ''s''])
   \<and> exit_code (fst (main example_ext [''git-simple-merge''] (example_world [''s'', ''s'']))) = 1
   \<and> fst (main mergetool_ext [''git-simple-merge'', ''--mergetool'']
             (example_world [''s'', ''s''])) = Inl (AttributeError ''resolve_hunk'')
   \<and> exit_code (fst (main mergetool_ext [''git-simple-merge'', ''--mergetool'']
                       (example_world [''s'', ''s'']))) = 1
   \<and> files (snd (main mergetool_ext [''git-simple-merge'', ''--mergetool'']
                    (example_world [''s'', ''s''])))
       = files (example_world [''s'', ''s''])
   \<and> stdin (snd (main mergetool_ext [''git-simple-merge'', ''--mergetool'']
                    (example_world [''s'', ''s'']))) = [''s'']"
proof -
  obtain wm where m: "process_file mergetool_ext ''f''
          (example_resolver, example_world [''s'', ''s''])
        = (Inl (AttributeError ''resolve_hunk''), example_resolver, wm)"
      and fm: "files wm = files (example_world [''s'', ''s''])" and sm: "stdin wm = [''s'']"
    using process_file_example_resolve [of "''s''" mergetool_ext "[''s'']"] typed_choices by auto
  have mm: "main mergetool_ext [''git-simple-merge'', ''--mergetool'']
          (example_world [''s'', ''s''])
        = (Inl (AttributeError ''resolve_hunk''), wm)"
    by (simp add: main_mergetool_example m)
  obtain w2 where s: "process_file example_ext ''f'' (example_resolver, example_world [''s'', ''s''])
        = (Inl (AttributeError ''resolve_hunk''), example_resolver, w2)"
      and fs: "files w2 = files (example_world [''s'', ''s''])" and ss: "stdin w2 = [''s'']"
    using process_file_example_resolve [of "''s''" example_ext "[''s'']"] typed_choices by auto
  then have pf: "process_files example_ext [''f'', ''g'']
          (example_resolver, example_world [''s'', ''s''])
        = (Inl (AttributeError ''resolve_hunk''), example_resolver, w2)"
    by simp
  have "exit_code (fst (main example_ext [''git-simple-merge''] (example_world [''s'', ''s'']))) = 1"
    by (simp add: main_regular_example exit_code_def)
  with pf fs ss mm fm sm show ?thesis by (simp add: exit_code_def)
qed

section \<open>The more-context command\<close>

lemma get_conflicts_long:
  "get_conflicts hunk_resolver ''g'' (example_world typed)
     = (Inr [long_hunk], example_world typed)"
  by (simp add: get_conflicts_def get_file_content_def example_world_def parse_long)

lemma dispatch_more_context:
  "dispatch x p hs self ''c'' w
     = Continue (self\<lparr>context_lines := min (context_lines self + 3) 10\<rparr>,
         print [Fore CYAN, Text (''Showing '' @
                  str_int (min (context_lines self + 3) 10) @ '' lines of context.'')] w)"
  by (simp add: dispatch_def Let_def)

lemma rstrip_examples:
  "rstrip ''a3\<newline>'' = ''a3''" "rstrip ''a4\<newline>'' = ''a4''" "rstrip ''a5\<newline>'' = ''a5''"
  "rstrip ''x\<newline>'' = ''x''" "rstrip ''y\<newline>'' = ''y''"
  "rstrip ''>>>>>>> branch\<newline>'' = ''>>>>>>> branch''"
  "rstrip ''b1\<newline>'' = ''b1''" "rstrip ''b2\<newline>'' = ''b2''"
  by code_simp+

text \<open>
  Claim C4, on the code. On the twelve-line file, shown in the per-hunk view, the
  more-context command raises the window size from 3 to 6 and the loop goes on with
  the hunk list it was given: the next rendering still shows the three context lines
  \<^verbatim>\<open>a3\<close>, \<^verbatim>\<open>a4\<close>, \<^verbatim>\<open>a5\<close> computed at size 3, although the window at size 6 holds
  the five lines \<^verbatim>\<open>a1\<close> to \<^verbatim>\<open>a5\<close>. The hunks are not re-windowed.
\<close>

theorem more_context_keeps_old_windows:
  "parse_content hunk_resolver long_content = Inr [long_hunk]
   \<and> iteration example_ext ''g'' [long_hunk] (hunk_resolver, example_world [''c''])
       = Continue (ctl_state (iteration example_ext ''g'' [long_hunk]
                     (hunk_resolver, example_world [''c''])))
   \<and> fst (ctl_state (iteration example_ext ''g'' [long_hunk]
              (hunk_resolver, example_world [''c''])))
       = hunk_resolver\<lparr>context_lines := 6\<rparr>
   \<and> process_loop example_ext ''g'' [long_hunk] (hunk_resolver, example_world [''c''])
       = process_loop example_ext ''g'' [long_hunk]
           (ctl_state (iteration example_ext ''g'' [long_hunk]
              (hunk_resolver, example_world [''c''])))
   \<and> stdout (render (hunk_resolver\<lparr>context_lines := 6\<rparr>) ''g'' [long_hunk] w)
       = stdout w
         @ [[Text ''\<newline>'', Fore BLUE, Text ''Conflict 1:'', Text ''\<newline>''],
            [Fore BLUE, Text (replicate 80 CHR ''=''), Text ''\<newline>''],
            [Style_RESET_ALL, Text ''a3'', Text ''\<newline>''],
            [Style_RESET_ALL, Text ''a4'', Text ''\<newline>''],
            [Style_RESET_ALL, Text ''a5'', Text ''\<newline>''],
            [Fore RED, Text ''<<<<<<< HEAD\<newline>'', Text ''\<newline>''],
            [Fore RED, Text ''<<<<<<< ours'', Text ''\<newline>''],
            [Fore RED, Text ''x'', Text ''\<newline>''],
            [Fore YELLOW, Text ''======='', Text ''\<newline>''],
            [Fore GREEN, Text ''y'', Text ''\<newline>''],
            [Fore GREEN, Text ''>>>>>>> branch'', Text ''\<newline>''],
            [Fore GREEN, Text ''>>>>>>> theirs'', Text ''\<newline>''],
            [Style_RESET_ALL, Text ''b1'', Text ''\<newline>''],
            [Style_RESET_ALL, Text ''b2'', Text ''\<newline>'']]
   \<and> fst (extract_context (hunk_resolver\<lparr>context_lines := 6\<rparr>) long_content 5 10)
       = [''a1\<newline>'', ''a2\<newline>'', ''a3\<newline>'', ''a4\<newline>'', ''a5\<newline>'']"
proof -
  let ?it = "iteration example_ext ''g'' [long_hunk] (hunk_resolver, example_world [''c''])"
  have s: "stdin (example_world [''c'']) = [''c'']" by (simp add: example_world_def)
  have v: "lower (strip ''c'') \<in> set (map fst (options hunk_resolver))"
    by (simp add: typed_choices option_keys)
  from iteration_valid [OF s v, of example_ext "''g''" "[long_hunk]"] obtain w2 where
    it: "?it = dispatch example_ext ''g'' [long_hunk] hunk_resolver ''c'' w2"
    by (auto simp: typed_choices)
  have cl: "min (context_lines hunk_resolver + 3) 10 = 6" by (simp add: hunk_resolver_def)
  from it have c: "?it = Continue (hunk_resolver\<lparr>context_lines := 6\<rparr>,
      print [Fore CYAN, Text (''Showing '' @ str_int 6 @ '' lines of context.'')] w2)"
    by (simp only: dispatch_more_context cl)
  then have 1: "?it = Continue (ctl_state ?it)"
    and 2: "fst (ctl_state ?it) = hunk_resolver\<lparr>context_lines := 6\<rparr>"
    by (simp_all add: ctl_state_def)
  from process_loop_continue [OF 1]
  have 3: "process_loop example_ext ''g'' [long_hunk] (hunk_resolver, example_world [''c''])
       = process_loop example_ext ''g'' [long_hunk] (ctl_state ?it)" .
  have 4: "stdout (render (hunk_resolver\<lparr>context_lines := 6\<rparr>) ''g'' [long_hunk] w)
       = stdout w
         @ [[Text ''\<newline>'', Fore BLUE, Text ''Conflict 1:'', Text ''\<newline>''],
            [Fore BLUE, Text (replicate 80 CHR ''=''), Text ''\<newline>''],
            [Style_RESET_ALL, Text ''a3'', Text ''\<newline>''],
            [Style_RESET_ALL, Text ''a4'', Text ''\<newline>''],
            [Style_RESET_ALL, Text ''a5'', Text ''\<newline>''],
            [Fore RED, Text ''<<<<<<< HEAD\<newline>'', Text ''\<newline>''],
            [Fore RED, Text ''<<<<<<< ours'', Text ''\<newline>''],
            [Fore RED, Text ''x'', Text ''\<newline>''],
            [Fore YELLOW, Text ''======='', Text ''\<newline>''],
            [Fore GREEN, Text ''y'', Text ''\<newline>''],
            [Fore GREEN, Text ''>>>>>>> branch'', Text ''\<newline>''],
            [Fore GREEN, Text ''>>>>>>> theirs'', Text ''\<newline>''],
            [Style_RESET_ALL, Text ''b1'', Text ''\<newline>''],
            [Style_RESET_ALL, Text ''b2'', Text ''\<newline>'']]"
  proof -
    have si: "str_int 1 = ''1''" by code_simp
    have r: "render (hunk_resolver\<lparr>context_lines := 6\<rparr>) ''g'' [long_hunk] w
            = display_hunk long_hunk 0 w"
      by (simp add: render_def hunk_resolver_def)
    show ?thesis
      unfolding r stdout_display_hunk
      by (simp add: long_hunk_def rstrip_examples nl_def si)
  qed
  have 5: "fst (extract_context (hunk_resolver\<lparr>context_lines := 6\<rparr>) long_content 5 10)
       = [''a1\<newline>'', ''a2\<newline>'', ''a3\<newline>'', ''a4\<newline>'', ''a5\<newline>'']"
    by code_simp
  from parse_long 1 2 3 4 5 show ?thesis by blast
qed

section \<open>The context-window size\<close>

lemma dispatch_context_lines:
  "context_lines (fst (ctl_state (dispatch x p hs self choice w)))
     = (if choice = ''c'' then min (context_lines self + 3) 10 else context_lines self)"
  unfolding dispatch_def Let_def ctl_state_def
  by (auto split: prod.splits sum.splits proc_outcome.splits)

lemma iteration_context_lines:
  "context_lines (fst (ctl_state (iteration x p hs sw))) = context_lines (fst sw)
   \<or> context_lines (fst (ctl_state (iteration x p hs sw))) = min (context_lines (fst sw) + 3) 10"
proof (cases "prompt_user (fst sw) (render (fst sw) p hs (snd sw))")
  case (Pair r w2)
  show ?thesis
  proof (cases r)
    case (Inl e)
    with Pair show ?thesis by (simp add: iteration_def Let_def ctl_state_def)
  next
    case (Inr choice)
    with Pair have "iteration x p hs sw = dispatch x p hs (fst sw) choice w2"
      by (simp add: iteration_def Let_def)
    then show ?thesis using dispatch_context_lines [of x p hs "fst sw" choice w2]
      by (simp split: if_splits)
  qed
qed

lemma iteration_bounds:
  "(context_lines (fst sw) \<le> 10 \<longrightarrow>
     context_lines (fst sw) \<le> context_lines (fst (ctl_state (iteration x p hs sw)))
     \<and> context_lines (fst (ctl_state (iteration x p hs sw))) \<le> 10)"
  using iteration_context_lines [of x p hs sw] by (auto simp: min_def)

lemma process_loop_bounds:
  "(context_lines (fst sw) \<le> 10 \<longrightarrow>
     context_lines (fst sw) \<le> context_lines (fst (snd (process_loop x p hs sw)))
     \<and> context_lines (fst (snd (process_loop x p hs sw))) \<le> 10)"
proof (induction x p hs sw rule: process_loop.induct)
  case (1 x p hs sw)
  show ?case
  proof (cases "iteration x p hs sw")
    case (Continue sw')
    from iteration_bounds [of sw x p hs] Continue
    have b: "(context_lines (fst sw) \<le> 10 \<longrightarrow>
     context_lines (fst sw) \<le> context_lines (fst sw')
     \<and> context_lines (fst sw') \<le> 10)"
      by (simp add: ctl_state_def)
    from process_loop_continue [OF Continue] "1.IH" [OF Continue] b show ?thesis
      by auto
  next
    case (Break sw')
    from iteration_bounds [of sw x p hs] Break process_loop_break [OF Break] show ?thesis
      by (simp add: ctl_state_def)
  next
    case (Raised e sw')
    from iteration_bounds [of sw x p hs] Raised process_loop_raised [OF Raised] show ?thesis
      by (simp add: ctl_state_def)
  qed
qed

lemma process_file_bounds:
  "(context_lines (fst sw) \<le> 10 \<longrightarrow>
     context_lines (fst sw) \<le> context_lines (fst (snd (process_file x p sw)))
     \<and> context_lines (fst (snd (process_file x p sw))) \<le> 10)"
proof (cases "get_conflicts (fst sw) p (snd sw)")
  case (Pair r w1)
  show ?thesis
  proof (cases r)
    case (Inl e)
    with Pair show ?thesis by (simp add: process_file_def Let_def)
  next
    case (Inr hs)
    show ?thesis
    proof (cases "hs = []")
      case True
      with Pair Inr show ?thesis by (simp add: process_file_def Let_def)
    next
      case False
      with Pair Inr have "process_file x p sw = process_loop x p hs (fst sw, w1)"
        by (simp add: process_file_def Let_def)
      with process_loop_bounds [of "(fst sw, w1)" x p hs] show ?thesis by simp
    qed
  qed
qed

lemma process_files_bounds:
  "(context_lines (fst sw) \<le> 10 \<longrightarrow>
     context_lines (fst sw) \<le> context_lines (fst (snd (process_files x fs sw)))
     \<and> context_lines (fst (snd (process_files x fs sw))) \<le> 10)"
proof (induction fs arbitrary: sw)
  case Nil
  show ?case by simp
next
  case (Cons p fs)
  obtain r sw' where pf: "process_file x p sw = (r, sw')"
    by (cases "process_file x p sw")
  with process_file_bounds [of sw x p]
  have b: "(context_lines (fst sw) \<le> 10 \<longrightarrow>
     context_lines (fst sw) \<le> context_lines (fst sw')
     \<and> context_lines (fst sw') \<le> 10)"
    by simp
  show ?case
  proof (cases r)
    case (Inl e)
    with pf b show ?thesis by simp
  next
    case (Inr u)
    with pf have "process_files x (p # fs) sw = process_files x fs sw'" by simp
    with Cons.IH [of sw'] b show ?thesis by auto
  qed
qed

lemma iteration_more_context:
  assumes "stdin w = ''c'' # ls"
  shows "\<exists>w2. iteration x p hs (self, w)
              = Continue (self\<lparr>context_lines := min (context_lines self + 3) 10\<rparr>, w2)
            \<and> files w2 = files w \<and> index w2 = index w \<and> stdin w2 = ls"
proof -
  have v: "lower (strip ''c'') \<in> set (map fst (options self))"
    by (simp add: typed_choices option_keys)
  from iteration_valid [OF assms v, of x p hs] obtain w2 where
    it: "iteration x p hs (self, w) = dispatch x p hs self ''c'' w2"
    and k: "files w2 = files w \<and> index w2 = index w \<and> stdin w2 = ls"
    by (auto simp: typed_choices)
  from it k show ?thesis
    unfolding dispatch_more_context by (auto simp: print_keeps)
qed

text \<open>
  Claim C6. The context-window size is 3 after \<^verbatim>\<open>__init__\<close>. A pass through the
  loop changes it only on the more-context command, which sets it to the minimum of
  the size plus 3 and 10; every other choice, the rendering and the prompt leave it as
  it is. So from a size of at most 10, over any list of files and any input, it never
  decreases and never exceeds 10. Typing \<^verbatim>\<open>c\<close> four times from size 3 gives the sizes
  6, 9, 10 and 10.
\<close>

theorem context_size_grows_to_cap:
  "(init x w = (Inr self0, w0) \<longrightarrow> context_lines self0 = 3)
   \<and> (choice \<noteq> ''c'' \<longrightarrow>
        context_lines (fst (ctl_state (dispatch x p hs self choice w1))) = context_lines self)
   \<and> context_lines (fst (ctl_state (dispatch x p hs self ''c'' w1)))
        = min (context_lines self + 3) 10
   \<and> (context_lines (fst (ctl_state (iteration x p hs (self, w1)))) = context_lines self
      \<or> context_lines (fst (ctl_state (iteration x p hs (self, w1))))
           = min (context_lines self + 3) 10)
   \<and> (process_files x fs (self, w1) = (r, self', w') \<longrightarrow>
        context_lines self \<le> 10 \<longrightarrow>
        context_lines self \<le> context_lines self' \<and> context_lines self' \<le> 10)
   \<and> (stdin w1 = ''c'' # ''c'' # ''c'' # ''c'' # rest \<longrightarrow> context_lines self = 3 \<longrightarrow>
        (\<exists>w2 w3 w4 w5.
           iteration x p hs (self, w1) = Continue (self\<lparr>context_lines := 6\<rparr>, w2)
         \<and> iteration x p hs (self\<lparr>context_lines := 6\<rparr>, w2)
             = Continue (self\<lparr>context_lines := 9\<rparr>, w3)
         \<and> iteration x p hs (self\<lparr>context_lines := 9\<rparr>, w3)
             = Continue (self\<lparr>context_lines := 10\<rparr>, w4)
         \<and> iteration x p hs (self\<lparr>context_lines := 10\<rparr>, w4)
             = Continue (self\<lparr>context_lines := 10\<rparr>, w5)
         \<and> stdin w5 = rest))"
proof -
  have 1: "context_lines self0 = 3" if "init x w = (Inr self0, w0)"
    using that by (auto simp: init_def Let_def split: if_splits)
  have 2: "context_lines (fst (ctl_state (dispatch x p hs self choice w1))) = context_lines self"
    if "choice \<noteq> ''c''"
    using that dispatch_context_lines [of x p hs self choice w1] by simp
  have 3: "context_lines (fst (ctl_state (dispatch x p hs self ''c'' w1)))
        = min (context_lines self + 3) 10"
    using dispatch_context_lines [of x p hs self "''c''" w1] by simp
  have 4: "context_lines (fst (ctl_state (iteration x p hs (self, w1)))) = context_lines self
      \<or> context_lines (fst (ctl_state (iteration x p hs (self, w1))))
           = min (context_lines self + 3) 10"
    using iteration_context_lines [of x p hs "(self, w1)"] by simp
  have 5: "context_lines self \<le> context_lines self' \<and> context_lines self' \<le> 10"
    if "process_files x fs (self, w1) = (r, self', w')" and "context_lines self \<le> 10"
    using that process_files_bounds [of "(self, w1)" x fs] by simp
  have 6: "\<exists>w2 w3 w4 w5.
           iteration x p hs (self, w1) = Continue (self\<lparr>context_lines := 6\<rparr>, w2)
         \<and> iteration x p hs (self\<lparr>context_lines := 6\<rparr>, w2)
             = Continue (self\<lparr>context_lines := 9\<rparr>, w3)
         \<and> iteration x p hs (self\<lparr>context_lines := 9\<rparr>, w3)
             = Continue (self\<lparr>context_lines := 10\<rparr>, w4)
         \<and> iteration x p hs (self\<lparr>context_lines := 10\<rparr>, w4)
             = Continue (self\<lparr>context_lines := 10\<rparr>, w5)
         \<and> stdin w5 = rest"
    if s: "stdin w1 = ''c'' # ''c'' # ''c'' # ''c'' # rest" and c: "context_lines self = 3"
  proof -
    from iteration_more_context [OF s, of x p hs self] c obtain w2 where
      a: "iteration x p hs (self, w1) = Continue (self\<lparr>context_lines := 6\<rparr>, w2)"
      and s2: "stdin w2 = ''c'' # ''c'' # ''c'' # rest"
      by auto
    from iteration_more_context [OF s2, of x p hs "self\<lparr>context_lines := 6\<rparr>"] obtain w3 where
      b: "iteration x p hs (self\<lparr>context_lines := 6\<rparr>, w2)
            = Continue (self\<lparr>context_lines := 9\<rparr>, w3)"
      and s3: "stdin w3 = ''c'' # ''c'' # rest"
      by auto
    from iteration_more_context [OF s3, of x p hs "self\<lparr>context_lines := 9\<rparr>"] obtain w4 where
      c: "iteration x p hs (self\<lparr>context_lines := 9\<rparr>, w3)
            = Continue (self\<lparr>context_lines := 10\<rparr>, w4)"
      and s4: "stdin w4 = ''c'' # rest"
      by auto
    from iteration_more_context [OF s4, of x p hs "self\<lparr>context_lines := 10\<rparr>"] obtain w5 where
      d: "iteration x p hs (self\<lparr>context_lines := 10\<rparr>, w4)
            = Continue (self\<lparr>context_lines := 10\<rparr>, w5)"
      and s5: "stdin w5 = rest"
      by auto
    from a b c d s5 show ?thesis by blast
  qed
  from 1 2 3 4 5 6 show ?thesis by blast
qed


theorem context_size_grows_to_cap_witness:
  "init example_ext (example_world []) = (Inr example_resolver, example_world [])
   \<and> context_lines example_resolver = 3
   \<and> ''q'' \<noteq> ''c''
   \<and> context_lines (fst (ctl_state (dispatch example_ext ''f'' [example_hunk] example_resolver
          ''q'' (example_world [''c'', ''c'', ''c'', ''c''])))) = 3
   \<and> context_lines (fst (ctl_state (dispatch example_ext ''f'' [example_hunk] example_resolver
          ''c'' (example_world [''c'', ''c'', ''c'', ''c''])))) = 6
   \<and> context_lines example_resolver \<le> 10
   \<and> 3 \<le> context_lines (fst (snd (process_files example_ext [''f'']
            (example_resolver, example_world [''c'', ''c'', ''c'', ''c'']))))
   \<and> context_lines (fst (snd (process_files example_ext [''f'']
            (example_resolver, example_world [''c'', ''c'', ''c'', ''c''])))) \<le> 10
   \<and> stdin (example_world [''c'', ''c'', ''c'', ''c'']) = ''c'' # ''c'' # ''c'' # ''c'' # []
   \<and> (\<exists>w2 w3 w4 w5.
         iteration example_ext ''f'' [example_hunk]
           (example_resolver, example_world [''c'', ''c'', ''c'', ''c''])
           = Continue (example_resolver\<lparr>context_lines := 6\<rparr>, w2)
       \<and> iteration example_ext ''f'' [example_hunk] (example_resolver\<lparr>context_lines := 6\<rparr>, w2)
           = Continue (example_resolver\<lparr>context_lines := 9\<rparr>, w3)
       \<and> iteration example_ext ''f'' [example_hunk] (example_resolver\<lparr>context_lines := 9\<rparr>, w3)
           = Continue (example_resolver\<lparr>context_lines := 10\<rparr>, w4)
       \<and> iteration example_ext ''f'' [example_hunk] (example_resolver\<lparr>context_lines := 10\<rparr>, w4)
           = Continue (example_resolver\<lparr>context_lines := 10\<rparr>, w5)
       \<and> stdin w5 = [])"
proof -
  let ?w1 = "example_world [''c'', ''c'', ''c'', ''c'']"
  let ?run = "process_files example_ext [''f''] (example_resolver, ?w1)"
  have i: "init example_ext (example_world []) = (Inr example_resolver, example_world [])"
    by (simp add: init_def example_ext_def example_resolver_def)
  have c3: "context_lines example_resolver = 3" and c10: "context_lines example_resolver \<le> 10"
    by (simp_all add: example_resolver_def)
  have q: "''q'' \<noteq> ''c''" by simp
  have s: "stdin ?w1 = ''c'' # ''c'' # ''c'' # ''c'' # []"
    by (simp add: example_world_def)
  have r: "?run = (fst ?run, fst (snd ?run), snd (snd ?run))" by simp
  note t = context_size_grows_to_cap [where x = example_ext and w = "example_world []"
      and ?self0.0 = example_resolver and ?w0.0 = "example_world []" and choice = "''q''"
      and p = "''f''" and hs = "[example_hunk]" and self = example_resolver and ?w1.0 = ?w1
      and fs = "[''f'']" and r = "fst ?run" and self' = "fst (snd ?run)"
      and w' = "snd (snd ?run)" and rest = "[]"]
  from t q c3 have a: "context_lines (fst (ctl_state (dispatch example_ext ''f'' [example_hunk]
          example_resolver ''q'' ?w1))) = 3"
    by simp
  from t c3 have b: "context_lines (fst (ctl_state (dispatch example_ext ''f'' [example_hunk]
          example_resolver ''c'' ?w1))) = 6"
    by simp
  from t r c10 c3 have d: "3 \<le> context_lines (fst (snd ?run))
      \<and> context_lines (fst (snd ?run)) \<le> 10"
    by simp
  from t s c3 have e: "\<exists>w2 w3 w4 w5.
         iteration example_ext ''f'' [example_hunk] (example_resolver, ?w1)
           = Continue (example_resolver\<lparr>context_lines := 6\<rparr>, w2)
       \<and> iteration example_ext ''f'' [example_hunk] (example_resolver\<lparr>context_lines := 6\<rparr>, w2)
           = Continue (example_resolver\<lparr>context_lines := 9\<rparr>, w3)
       \<and> iteration example_ext ''f'' [example_hunk] (example_resolver\<lparr>context_lines := 9\<rparr>, w3)
           = Continue (example_resolver\<lparr>context_lines := 10\<rparr>, w4)
       \<and> iteration example_ext ''f'' [example_hunk] (example_resolver\<lparr>context_lines := 10\<rparr>, w4)
           = Continue (example_resolver\<lparr>context_lines := 10\<rparr>, w5)
       \<and> stdin w5 = []"
    by blast
  from i c3 q a b c10 d s e show ?thesis by blast
qed

section \<open>The quit command\<close>

lemma dispatch_quit:
  "dispatch x p hs self ''q'' w
     = Raised (SystemExit 0) (self, print [Fore MAGENTA, Text ''Quitting script.''] w)"
  by (simp add: dispatch_def)

lemma process_loop_quit:
  assumes "prompt_user self (render self p hs w) = (Inr ''q'', w2)"
  shows "process_loop x p hs (self, w)
           = (Inl (SystemExit 0), self, print [Fore MAGENTA, Text ''Quitting script.''] w2)
       \<and> files (print [Fore MAGENTA, Text ''Quitting script.''] w2) = files w
       \<and> index (print [Fore MAGENTA, Text ''Quitting script.''] w2) = index w
       \<and> stdin (print [Fore MAGENTA, Text ''Quitting script.''] w2) = stdin w2"
proof -
  have "iteration x p hs (self, w)
          = Raised (SystemExit 0) (self, print [Fore MAGENTA, Text ''Quitting script.''] w2)"
    unfolding iteration_def Let_def by (simp add: assms dispatch_quit)
  from process_loop_raised [OF this]
    prompt_user_keeps [of self "render self p hs w"] render_keeps [of self p hs w] assms
  show ?thesis by (simp add: print_keeps)
qed

lemma process_file_loop:
  assumes "get_conflicts self p w0 = (Inr hs, w)" and "hs \<noteq> []"
  shows "process_file x p (self, w0) = process_loop x p hs (self, w)"
  using assms by (simp add: process_file_def Let_def)

lemma process_files_raise:
  assumes "process_files x pre sw0 = (Inr (), sw1)" and "process_file x p sw1 = (Inl e, sw')"
  shows "process_files x (pre @ p # rest) sw0 = (Inl e, sw')"
  using assms
proof (induction pre arbitrary: sw0)
  case Nil
  then show ?case by simp
next
  case (Cons a pre)
  obtain r swa where a: "process_file x a sw0 = (r, swa)"
    by (cases "process_file x a sw0")
  show ?case
  proof (cases r)
    case (Inl e')
    with a Cons.prems(1) show ?thesis by simp
  next
    case (Inr u)
    with a Cons.prems(1) have "process_files x pre swa = (Inr (), sw1)" by simp
    from Cons.IH [OF this Cons.prems(2)] a Inr show ?thesis by simp
  qed
qed

lemma regular_files_raise:
  assumes "process_files x fs (resolver, wb) = (Inl e, sw')"
  shows "regular_files x resolver fs wb = (Inl e, snd sw')"
proof -
  from assms have "fs \<noteq> []" by auto
  with assms show ?thesis by (simp add: regular_files_def)
qed

lemma regular_enumerates:
  assumes "init x wi = (Inr resolver, wa)" and "get_conflicted_files x wa = (Inr fs, wb)"
  shows "regular x wi = regular_files x resolver fs wb"
  using assms by (simp add: regular_def)

lemma main_mergetool_raise:
  assumes "1 < length argv" and "argv ! 1 = ''--mergetool''"
    and "list_all truthy [environ x ''LOCAL'', environ x ''BASE'', environ x ''REMOTE'',
           environ x ''MERGED'']"
    and "environ x ''MERGED'' = Some m"
    and "init x wi = (Inr resolver, wa)"
    and "process_file x m (resolver, wa) = (Inl e, sw')"
  shows "main x argv wi = (Inl e, snd sw')"
  using assms by (simp add: main_def Let_def)

lemma main_regular:
  assumes "\<not> (1 < length argv \<and> argv ! 1 = ''--mergetool''
            \<and> list_all truthy [environ x ''LOCAL'', environ x ''BASE'', environ x ''REMOTE'',
                 environ x ''MERGED''])"
  shows "main x argv wi = regular x wi"
  using assms by (auto simp: main_def Let_def)

lemma dispatch_toggle:
  "dispatch x p hs self ''m'' w
     = Continue (self\<lparr>view_mode := (if view_mode self = FILE then HUNK else FILE)\<rparr>,
         print [Fore CYAN, Text (''Switched to '' @ ViewMode_value
                  (if view_mode self = FILE then HUNK else FILE) @ '' view.'')] w)"
  by (simp add: dispatch_def Let_def)

lemma mergetool_ext_facts:
  "init mergetool_ext w = (Inr example_resolver, w)"
  "get_conflicted_files mergetool_ext w = (Inl (AttributeError ''a_path''), w)"
  "environ mergetool_ext ''MERGED'' = Some ''f''"
  "list_all truthy [environ mergetool_ext ''LOCAL'', environ mergetool_ext ''BASE'',
     environ mergetool_ext ''REMOTE'', environ mergetool_ext ''MERGED'']"
  by (simp_all add: init_def get_conflicted_files_def a_path_def mergetool_ext_def
        example_ext_def example_resolver_def truthy_def)

text \<open>
  Claim C8. When the choice read at a prompt is \<^verbatim>\<open>q\<close>, the loop ends at once with
  \<^verbatim>\<open>SystemExit(0)\<close>: the world it leaves is the world at that prompt plus the
  message, with the same files and index, and nothing more read. Passes that continue
  hand their result on, so this holds at whichever pass the user quits. The exception
  leaves \<^verbatim>\<open>process_file\<close>, the loop over the conflicted files (the files after the
  current one are not processed), the lines of \<^verbatim>\<open>main\<close> that run this loop on the
  list of conflicted files, and \<^verbatim>\<open>main\<close> in both of its modes, and the exit status
  is 0.
\<close>

theorem quit_ends_the_run:
  "(prompt_user self (render self p hs w) = (Inr ''q'', w2) \<longrightarrow>
      process_loop x p hs (self, w)
        = (Inl (SystemExit 0), self, print [Fore MAGENTA, Text ''Quitting script.''] w2)
      \<and> files (print [Fore MAGENTA, Text ''Quitting script.''] w2) = files w
      \<and> index (print [Fore MAGENTA, Text ''Quitting script.''] w2) = index w
      \<and> stdin (print [Fore MAGENTA, Text ''Quitting script.''] w2) = stdin w2)
   \<and> (iteration x p hs sw = Continue sw1 \<longrightarrow>
        process_loop x p hs sw = process_loop x p hs sw1)
   \<and> (get_conflicts self0 p w0 = (Inr hs, w1) \<longrightarrow> hs \<noteq> [] \<longrightarrow>
        process_file x p (self0, w0) = process_loop x p hs (self0, w1))
   \<and> (process_files x pre swa = (Inr (), swb) \<longrightarrow>
        process_file x p swb = (Inl (SystemExit n), sw') \<longrightarrow>
        process_files x (pre @ p # rest) swa = (Inl (SystemExit n), sw'))
   \<and> (process_files x fs (resolver, wb) = (Inl (SystemExit n), sw') \<longrightarrow>
        regular_files x resolver fs wb = (Inl (SystemExit n), snd sw'))
   \<and> (init x wi = (Inr resolver0, wa) \<longrightarrow> get_conflicted_files x wa = (Inr fs0, wc) \<longrightarrow>
        regular x wi = regular_files x resolver0 fs0 wc)
   \<and> (\<not> (1 < length argv \<and> argv ! 1 = ''--mergetool''
            \<and> list_all truthy [environ x ''LOCAL'', environ x ''BASE'', environ x ''REMOTE'',
                 environ x ''MERGED'']) \<longrightarrow>
        main x argv wi = regular x wi)
   \<and> (1 < length argm \<longrightarrow> argm ! 1 = ''--mergetool'' \<longrightarrow>
        list_all truthy [environ x ''LOCAL'', environ x ''BASE'', environ x ''REMOTE'',
          environ x ''MERGED''] \<longrightarrow>
        environ x ''MERGED'' = Some m \<longrightarrow> init x wm = (Inr resolverm, wn) \<longrightarrow>
        process_file x m (resolverm, wn) = (Inl (SystemExit k), swm) \<longrightarrow>
        main x argm wm = (Inl (SystemExit k), snd swm))
   \<and> exit_code (Inl (SystemExit 0)) = 0"
proof -
  have g: "exit_code (Inl (SystemExit 0)) = 0" by (simp add: exit_code_def)
  from process_loop_quit [of self p hs w w2 x] process_loop_continue [of x p hs sw sw1]
    process_file_loop [of self0 p w0 hs w1 x]
    process_files_raise [of x pre swa swb p "SystemExit n" sw' rest]
    regular_files_raise [of x fs resolver wb "SystemExit n" sw']
    regular_enumerates [of x wi resolver0 wa fs0 wc]
    main_regular [of argv x wi]
    main_mergetool_raise [of argm x m wm resolverm wn "SystemExit k" swm] g
  show ?thesis by blast
qed

theorem quit_ends_the_run_witness:
  "fst (regular_files mergetool_ext example_resolver [''f'', ''g'']
          (example_world [''m'', ''q'', ''o''])) = Inl (SystemExit 0)
   \<and> exit_code (fst (regular_files mergetool_ext example_resolver [''f'', ''g'']
                       (example_world [''m'', ''q'', ''o'']))) = 0
   \<and> files (snd (regular_files mergetool_ext example_resolver [''f'', ''g'']
                    (example_world [''m'', ''q'', ''o''])))
       = files (example_world [''m'', ''q'', ''o''])
   \<and> index (snd (regular_files mergetool_ext example_resolver [''f'', ''g'']
                    (example_world [''m'', ''q'', ''o'']))) = []
   \<and> stdin (snd (regular_files mergetool_ext example_resolver [''f'', ''g'']
                    (example_world [''m'', ''q'', ''o'']))) = [''o'']
   \<and> main mergetool_ext [''git-simple-merge''] (example_world [''m'', ''q'', ''o''])
       = regular mergetool_ext (example_world [''m'', ''q'', ''o''])
   \<and> regular clean_ext (example_world [''q''])
       = regular_files clean_ext example_resolver [] (example_world [''q''])
   \<and> fst (main mergetool_ext [''git-simple-merge'', ''--mergetool''] (example_world [''q'', ''o'']))
       = Inl (SystemExit 0)
   \<and> files (snd (main mergetool_ext [''git-simple-merge'', ''--mergetool'']
                    (example_world [''q'', ''o''])))
       = files (example_world [''q'', ''o''])
   \<and> stdin (snd (main mergetool_ext [''git-simple-merge'', ''--mergetool'']
                    (example_world [''q'', ''o''])))
       = [''o'']"
proof -
  let ?x = mergetool_ext
  let ?wi = "example_world [''m'', ''q'', ''o'']"
  let ?wm = "example_world [''q'', ''o'']"
  let ?hs = "[example_hunk]"
  let ?quit = "print [Fore MAGENTA, Text ''Quitting script.'']"
  have hr: "example_resolver\<lparr>view_mode := HUNK\<rparr> = hunk_resolver"
    and vm: "view_mode example_resolver = FILE"
    by (simp_all add: example_resolver_def hunk_resolver_def)
  \<comment> \<open>the first pass: the user switches the view\<close>
  have si: "stdin ?wi = ''m'' # [''q'', ''o'']" and ii: "index ?wi = []"
    by (simp_all add: example_world_def)
  have vm_ok: "lower (strip ''m'') \<in> set (map fst (options example_resolver))"
    by (simp add: typed_choices option_keys)
  from iteration_valid [OF si vm_ok, of ?x "''f''" ?hs] obtain wt where
    it0: "iteration ?x ''f'' ?hs (example_resolver, ?wi)
            = dispatch ?x ''f'' ?hs example_resolver ''m'' wt"
    and kt: "files wt = files ?wi" "index wt = index ?wi" "stdin wt = [''q'', ''o'']"
    by (auto simp: typed_choices)
  define w1 where "w1 = print [Fore CYAN, Text (''Switched to '' @ ViewMode_value
                  (if view_mode example_resolver = FILE then HUNK else FILE) @ '' view.'')] wt"
  from it0 have it1: "iteration ?x ''f'' ?hs (example_resolver, ?wi) = Continue (hunk_resolver, w1)"
    by (simp add: dispatch_toggle vm hr w1_def)
  have k1: "files w1 = files ?wi" "index w1 = []" "stdin w1 = ''q'' # [''o'']"
    using kt ii by (simp_all add: w1_def print_keeps)
  \<comment> \<open>the second pass: the user quits\<close>
  let ?r1 = "render hunk_resolver ''f'' ?hs w1"
  have sr1: "stdin ?r1 = ''q'' # [''o'']"
    using render_keeps [of hunk_resolver "''f''" ?hs w1] k1 by simp
  have q_ok: "lower (strip ''q'') \<in> set (map fst (options hunk_resolver))"
    by (simp add: typed_choices option_keys)
  define w2 where "w2 = snd (prompt_user hunk_resolver ?r1)"
  from prompt_user_valid [OF sr1 q_ok]
  have pu: "prompt_user hunk_resolver ?r1 = (Inr ''q'', w2)" and s2: "stdin w2 = [''o'']"
    by (simp_all add: w2_def typed_choices prod_eq_iff)
  \<comment> \<open>the merge-tool run: the user quits at the first prompt\<close>
  let ?rm = "render example_resolver ''f'' ?hs ?wm"
  have srm: "stdin ?rm = ''q'' # [''o'']"
    using render_keeps [of example_resolver "''f''" ?hs ?wm] by (simp add: example_world_def)
  have qm_ok: "lower (strip ''q'') \<in> set (map fst (options example_resolver))"
    by (simp add: typed_choices option_keys)
  define w3 where "w3 = snd (prompt_user example_resolver ?rm)"
  from prompt_user_valid [OF srm qm_ok]
  have pum: "prompt_user example_resolver ?rm = (Inr ''q'', w3)" and s3: "stdin w3 = [''o'']"
    by (simp_all add: w3_def typed_choices prod_eq_iff)
  from process_loop_quit [OF pum, of ?x]
  have lm: "process_loop ?x ''f'' ?hs (example_resolver, ?wm)
              = (Inl (SystemExit 0), example_resolver, ?quit w3)"
    and km: "files (?quit w3) = files ?wm" "stdin (?quit w3) = [''o'']"
    using s3 by simp_all
  have pm: "process_file ?x ''f'' (example_resolver, ?wm)
              = (Inl (SystemExit 0), example_resolver, ?quit w3)"
    using process_file_loop [OF get_conflicts_example, of ?x "[''q'', ''o'']"] lm by simp
  note t = quit_ends_the_run [where x = ?x and self = hunk_resolver and p = "''f''" and hs = ?hs
      and w = w1 and ?w2.0 = w2 and sw = "(example_resolver, ?wi)" and ?sw1.0 = "(hunk_resolver, w1)"
      and ?self0.0 = example_resolver and ?w0.0 = ?wi and ?w1.0 = ?wi
      and pre = "[]" and swa = "(example_resolver, ?wi)" and swb = "(example_resolver, ?wi)"
      and n = 0 and sw' = "(hunk_resolver, ?quit w2)" and rest = "[''g'']"
      and wi = ?wi and resolver = example_resolver and fs = "[''f'', ''g'']"
      and wb = ?wi and argv = "[''git-simple-merge'']"
      and argm = "[''git-simple-merge'', ''--mergetool'']" and m = "''f''" and wm = ?wm
      and resolverm = example_resolver and wn = ?wm and k = 0
      and swm = "(example_resolver, ?quit w3)"]
  from t pu have l2: "process_loop ?x ''f'' ?hs (hunk_resolver, w1)
        = (Inl (SystemExit 0), hunk_resolver, ?quit w2)"
    and kq: "files (?quit w2) = files w1" "index (?quit w2) = index w1"
      "stdin (?quit w2) = stdin w2"
    by blast+
  from t it1 have l1: "process_loop ?x ''f'' ?hs (example_resolver, ?wi)
        = process_loop ?x ''f'' ?hs (hunk_resolver, w1)"
    by blast
  from t get_conflicts_example [of "[''m'', ''q'', ''o'']"]
  have pf: "process_file ?x ''f'' (example_resolver, ?wi)
        = process_loop ?x ''f'' ?hs (example_resolver, ?wi)"
    by blast
  with l1 l2 have pf': "process_file ?x ''f'' (example_resolver, ?wi)
        = (Inl (SystemExit 0), hunk_resolver, ?quit w2)"
    by simp
  have p0: "process_files ?x [] (example_resolver, ?wi) = (Inr (), example_resolver, ?wi)"
    by simp
  from t p0 pf' have pfs: "process_files ?x ([] @ ''f'' # [''g'']) (example_resolver, ?wi)
        = (Inl (SystemExit 0), hunk_resolver, ?quit w2)"
    by blast
  then have pfs': "process_files ?x [''f'', ''g''] (example_resolver, ?wi)
        = (Inl (SystemExit 0), hunk_resolver, ?quit w2)"
    by simp
  from t pfs'
  have "regular_files ?x example_resolver [''f'', ''g''] ?wi
          = (Inl (SystemExit 0), snd (hunk_resolver, ?quit w2))"
    by blast
  then have reg: "regular_files ?x example_resolver [''f'', ''g''] ?wi
          = (Inl (SystemExit 0), ?quit w2)"
    by simp
  have "\<not> (1 < length [''git-simple-merge''] \<and> [''git-simple-merge''] ! 1 = ''--mergetool''
            \<and> list_all truthy [environ ?x ''LOCAL'', environ ?x ''BASE'', environ ?x ''REMOTE'',
                 environ ?x ''MERGED''])"
    by simp
  with t have main1: "main ?x [''git-simple-merge''] ?wi = regular ?x ?wi"
    by blast
  \<comment> \<open>a repository without unmerged paths: the list is computed and handed on\<close>
  have ci: "init clean_ext (example_world [''q'']) = (Inr example_resolver, example_world [''q''])"
    and cg: "get_conflicted_files clean_ext (example_world [''q''])
               = (Inr [], example_world [''q''])"
    by (simp_all add: init_def get_conflicted_files_def list_set_def clean_ext_def
          example_ext_def example_resolver_def)
  note t0 = quit_ends_the_run [where x = clean_ext and wi = "example_world [''q'']"
      and ?resolver0.0 = example_resolver and wa = "example_world [''q'']" and ?fs0.0 = "[]"
      and wc = "example_world [''q'']", THEN conjunct2, THEN conjunct2, THEN conjunct2,
      THEN conjunct2, THEN conjunct2, THEN conjunct1]
  from t0 ci cg have r0: "regular clean_ext (example_world [''q''])
       = regular_files clean_ext example_resolver [] (example_world [''q''])"
    by blast
  have "1 < length [''git-simple-merge'', ''--mergetool'']"
    and "[''git-simple-merge'', ''--mergetool''] ! 1 = ''--mergetool''"
    by simp_all
  with t mergetool_ext_facts(4) mergetool_ext_facts(3) mergetool_ext_facts(1) [of ?wm] pm
  have "main ?x [''git-simple-merge'', ''--mergetool''] ?wm
          = (Inl (SystemExit 0), snd (example_resolver, ?quit w3))"
    by blast
  then have main2: "main ?x [''git-simple-merge'', ''--mergetool''] ?wm
          = (Inl (SystemExit 0), ?quit w3)"
    by simp
  from t have ec: "exit_code (Inl (SystemExit 0)) = 0" by blast
  from reg main1 r0 main2 ec kq k1 s2 km show ?thesis by simp
qed

section \<open>The merge-tool mode without its variables\<close>

lemma unset_not_all_truthy:
  assumes "environ x ''LOCAL'' = None \<or> environ x ''BASE'' = None
         \<or> environ x ''REMOTE'' = None \<or> environ x ''MERGED'' = None"
  shows "\<not> list_all truthy [environ x ''LOCAL'', environ x ''BASE'', environ x ''REMOTE'',
            environ x ''MERGED'']"
  using assms by (auto simp: truthy_def)

lemma main_falls_through:
  assumes "1 < length argv" and "argv ! 1 = ''--mergetool''"
    and "environ x ''LOCAL'' = None \<or> environ x ''BASE'' = None
         \<or> environ x ''REMOTE'' = None \<or> environ x ''MERGED'' = None"
  shows "main x argv w = regular x w \<and> main x argv w = main x [argv ! 0] w"
proof -
  from unset_not_all_truthy [OF assms(3)]
  have a: "main x argv w = regular x w"
    by (intro main_regular) simp
  have b: "main x [argv ! 0] w = regular x w"
    by (intro main_regular) simp
  from a b show ?thesis by simp
qed

text \<open>The list of conflicted files, when the method returns one, is empty.\<close>

lemma a_paths_returns:
  assumes "a_paths items = Inr ps"
  shows "items = [] \<and> ps = []"
  using assms by (cases items) (simp_all add: a_path_def)

lemma get_conflicted_files_returns:
  assumes "get_conflicted_files x w = (Inr fs, w')"
  shows "fs = []"
  using assms a_paths_returns
  by (fastforce simp: get_conflicted_files_def list_set_def
        split: option.splits sum.splits)

text \<open>
  Claim C10, on the code. Called with \<^verbatim>\<open>--mergetool\<close> while MERGED is unset, in a
  repository with the unmerged paths \<^verbatim>\<open>f\<close> and \<^verbatim>\<open>g\<close>, \<^verbatim>\<open>main\<close> does fall
  through: it does what it does without an argument. But that regular mode does not
  process the conflicted files: \<^verbatim>\<open>get_conflicted_files\<close> raises AttributeError for
  \<^verbatim>\<open>a_path\<close>, nothing is printed, no line is read, no file is processed, and the
  exit status is 1.
\<close>

theorem mergetool_fall_through_raises_AttributeError:
  "environ unset_merged_ext ''MERGED'' = None
   \<and> main unset_merged_ext [''git-simple-merge'', ''--mergetool''] (example_world [''o''])
       = regular unset_merged_ext (example_world [''o''])
   \<and> main unset_merged_ext [''git-simple-merge'', ''--mergetool''] (example_world [''o''])
       = main unset_merged_ext [''git-simple-merge''] (example_world [''o''])
   \<and> get_conflicted_files unset_merged_ext (example_world [''o''])
       = (Inl (AttributeError ''a_path''), example_world [''o''])
   \<and> main unset_merged_ext [''git-simple-merge'', ''--mergetool''] (example_world [''o''])
       = (Inl (AttributeError ''a_path''), example_world [''o''])
   \<and> exit_code (fst (main unset_merged_ext [''git-simple-merge'', ''--mergetool'']
                       (example_world [''o'']))) = 1"
proof -
  let ?argv = "[''git-simple-merge'', ''--mergetool'']"
  let ?w = "example_world [''o'']"
  have u: "environ unset_merged_ext ''MERGED'' = None"
    by (simp add: unset_merged_ext_def)
  have h1: "1 < length ?argv" and h2: "?argv ! 1 = ''--mergetool''"
    by simp_all
  from u have h3: "environ unset_merged_ext ''LOCAL'' = None
      \<or> environ unset_merged_ext ''BASE'' = None
      \<or> environ unset_merged_ext ''REMOTE'' = None
      \<or> environ unset_merged_ext ''MERGED'' = None"
    by simp
  have z: "[?argv ! 0] = [''git-simple-merge'']" by simp
  note ft = main_falls_through [OF h1 h2 h3, of ?w, unfolded z]
  have g: "get_conflicted_files unset_merged_ext ?w = (Inl (AttributeError ''a_path''), ?w)"
    by (simp add: get_conflicted_files_def a_path_def unset_merged_ext_def example_ext_def)
  have i: "init unset_merged_ext ?w = (Inr example_resolver, ?w)"
    by (simp add: init_def unset_merged_ext_def example_ext_def example_resolver_def)
  have r: "regular unset_merged_ext ?w = (Inl (AttributeError ''a_path''), ?w)"
    by (simp add: regular_def i g)
  with ft have m: "main unset_merged_ext ?argv ?w = (Inl (AttributeError ''a_path''), ?w)"
    by simp
  then have e: "exit_code (fst (main unset_merged_ext ?argv ?w)) = 1"
    by (simp add: exit_code_def)
  from u ft g m e show ?thesis by blast
qed

end
